theory Spec2Isabelle
  imports Main "HOL-Library.Sublist"
begin

section \<open>JavaScript values as the sources read them\<close>

text \<open>
  The sources are TypeScript; their type annotations and \<open>as\<close> casts are erased at run
  time, so every function really receives an arbitrary JavaScript value. A value is
  \<open>undefined\<close>, \<open>null\<close>, a boolean, a number, a string, an array or an object with named
  fields. A number is kept as the text \<open>ToString\<close> gives for it (\<open>42\<close>, \<open>NaN\<close>): the sources
  never compute with numbers, they only test them for truthiness or turn them into text.
  A syntax-tree node is an object whose field \<open>type\<close> holds the node kind; its \<open>parent\<close>
  field holds the enclosing node.
\<close>

datatype jsv =
    JUndefined
  | JNull
  | JBool bool
  | JNum string
  | JStr string
  | JArr "jsv list"
  | JObj "(string \<times> jsv) list"

text \<open>The only fault the sources can raise on these values is a \<open>TypeError\<close>: reading a
  property of \<open>undefined\<close> or \<open>null\<close>, or calling an array method on something that is
  not an array. \<open>PatternOutsideFragment\<close> marks a regular expression source text that the
  embedded fragment of the pattern language does not cover.\<close>

datatype error = TypeError | PatternOutsideFragment

text \<open>\<open>!!v\<close>: the truthiness of a value.\<close>

fun truthy :: "jsv \<Rightarrow> bool" where
  "truthy JUndefined = False"
| "truthy JNull = False"
| "truthy (JBool b) = b"
| "truthy (JNum n) = (n \<noteq> ''0'' \<and> n \<noteq> ''NaN'')"
| "truthy (JStr s) = (s \<noteq> [])"
| "truthy (JArr xs) = True"
| "truthy (JObj fs) = True"

text \<open>\<open>v.f\<close>: raises on \<open>undefined\<close> and \<open>null\<close>; an object yields the field or
  \<open>undefined\<close>; a primitive or an array yields \<open>undefined\<close> for every field name the sources
  read (\<open>type\<close>, \<open>name\<close>, \<open>value\<close>, \<open>parent\<close>, \<open>callee\<close>, \<open>property\<close>, \<open>key\<close>, \<open>id\<close>,
  \<open>properties\<close>, \<open>specifiers\<close>, \<open>imported\<close>, \<open>source\<close>, \<open>arguments\<close>), none of which is
  inherited from a built-in prototype.\<close>

fun getp :: "jsv \<Rightarrow> string \<Rightarrow> error + jsv" where
  "getp JUndefined f = Inl TypeError"
| "getp JNull f = Inl TypeError"
| "getp (JObj fs) f = Inr (case map_of fs f of None \<Rightarrow> JUndefined | Some v \<Rightarrow> v)"
| "getp (JBool b) f = Inr JUndefined"
| "getp (JNum n) f = Inr JUndefined"
| "getp (JStr s) f = Inr JUndefined"
| "getp (JArr xs) f = Inr JUndefined"

text \<open>Sequencing of two evaluations, the first of which may raise.\<close>

definition andThen :: "error + 'a \<Rightarrow> ('a \<Rightarrow> error + 'b) \<Rightarrow> error + 'b" where
  "andThen a k = (case a of Inl e \<Rightarrow> Inl e | Inr v \<Rightarrow> k v)"

text \<open>\<open>a && b\<close> and \<open>a || b\<close>: the right operand is evaluated only when the left one does
  not decide, and the result is the operand that decided, not a boolean.\<close>

definition jsAnd :: "error + jsv \<Rightarrow> error + jsv \<Rightarrow> error + jsv" where
  "jsAnd a b = (case a of Inl e \<Rightarrow> Inl e | Inr v \<Rightarrow> if truthy v then b else Inr v)"

definition jsOr :: "error + jsv \<Rightarrow> error + jsv \<Rightarrow> error + jsv" where
  "jsOr a b = (case a of Inl e \<Rightarrow> Inl e | Inr v \<Rightarrow> if truthy v then Inr v else b)"

text \<open>\<open>v === s\<close> for a string \<open>s\<close>: every comparison in the sources has a string on one
  side, and a string is strictly equal only to the same string.\<close>

definition strictEqStr :: "jsv \<Rightarrow> string \<Rightarrow> bool" where
  "strictEqStr v s = (v = JStr s)"

text \<open>\<open>xs.some(p)\<close> and \<open>xs.find(p)\<close> on the elements of an array: the callback runs on
  the elements in order and stops at the first truthy answer; a raise in the callback
  ends the whole call.\<close>

fun someM :: "('a \<Rightarrow> error + jsv) \<Rightarrow> 'a list \<Rightarrow> error + bool" where
  "someM p [] = Inr False"
| "someM p (x # xs) =
     (case p x of Inl e \<Rightarrow> Inl e | Inr r \<Rightarrow> if truthy r then Inr True else someM p xs)"

fun findM :: "(jsv \<Rightarrow> error + jsv) \<Rightarrow> jsv list \<Rightarrow> error + jsv" where
  "findM p [] = Inr JUndefined"
| "findM p (x # xs) =
     (case p x of Inl e \<Rightarrow> Inl e | Inr r \<Rightarrow> if truthy r then Inr x else findM p xs)"

text \<open>Calling \<open>.some\<close> or \<open>.find\<close> on a value: only an array has these methods.\<close>

definition arraySome :: "jsv \<Rightarrow> (jsv \<Rightarrow> error + jsv) \<Rightarrow> error + bool" where
  "arraySome a p = (case a of JArr xs \<Rightarrow> someM p xs | _ \<Rightarrow> Inl TypeError)"

definition arrayFind :: "jsv \<Rightarrow> (jsv \<Rightarrow> error + jsv) \<Rightarrow> error + jsv" where
  "arrayFind a p = (case a of JArr xs \<Rightarrow> findM p xs | _ \<Rightarrow> Inl TypeError)"

section \<open>Node classifier (node-utils)\<close>

text \<open>The two ways the predicates are written: \<open>node && node.type === tag\<close> and
  \<open>node?.type === tag\<close>. The members of \<open>AST_NODE_TYPES\<close> are the strings of their own
  names.\<close>

definition guardedTypeIs :: "jsv \<Rightarrow> string \<Rightarrow> error + jsv" where
  "guardedTypeIs node tag =
     jsAnd (Inr node) (andThen (getp node ''type'') (\<lambda>t. Inr (JBool (strictEqStr t tag))))"

definition optionalTypeIs :: "jsv \<Rightarrow> string \<Rightarrow> error + jsv" where
  "optionalTypeIs node tag =
     (if node = JUndefined \<or> node = JNull then Inr (JBool (strictEqStr JUndefined tag))
      else andThen (getp node ''type'') (\<lambda>t. Inr (JBool (strictEqStr t tag))))"

definition isCallExpression :: "jsv \<Rightarrow> error + jsv" where
  "isCallExpression node = guardedTypeIs node ''CallExpression''"

definition isIdentifier :: "jsv \<Rightarrow> error + jsv" where
  "isIdentifier node = guardedTypeIs node ''Identifier''"

definition isMemberExpression :: "jsv \<Rightarrow> error + jsv" where
  "isMemberExpression node = guardedTypeIs node ''MemberExpression''"

definition isLiteral :: "jsv \<Rightarrow> error + jsv" where
  "isLiteral node = guardedTypeIs node ''Literal''"

definition isImportSpecifier :: "jsv \<Rightarrow> error + jsv" where
  "isImportSpecifier node = guardedTypeIs node ''ImportSpecifier''"

definition isImportNamespaceSpecifier :: "jsv \<Rightarrow> error + jsv" where
  "isImportNamespaceSpecifier node = optionalTypeIs node ''ImportNamespaceSpecifier''"

definition isImportDefaultSpecifier :: "jsv \<Rightarrow> error + jsv" where
  "isImportDefaultSpecifier node = guardedTypeIs node ''ImportDefaultSpecifier''"

definition isBlockStatement :: "jsv \<Rightarrow> error + jsv" where
  "isBlockStatement node = guardedTypeIs node ''BlockStatement''"

definition isVariableDeclarator :: "jsv \<Rightarrow> error + jsv" where
  "isVariableDeclarator node = guardedTypeIs node ''VariableDeclarator''"

definition isObjectPattern :: "jsv \<Rightarrow> error + jsv" where
  "isObjectPattern node = guardedTypeIs node ''ObjectPattern''"

definition isProperty :: "jsv \<Rightarrow> error + jsv" where
  "isProperty node = guardedTypeIs node ''Property''"

definition isJSXAttribute :: "jsv \<Rightarrow> error + jsv" where
  "isJSXAttribute node = guardedTypeIs node ''JSXAttribute''"

definition isObjectExpression :: "jsv \<Rightarrow> error + jsv" where
  "isObjectExpression node = optionalTypeIs node ''ObjectExpression''"

definition isAwaitExpression :: "jsv \<Rightarrow> error + jsv" where
  "isAwaitExpression node = guardedTypeIs node ''AwaitExpression''"

definition isArrowFunctionExpression :: "jsv \<Rightarrow> error + jsv" where
  "isArrowFunctionExpression node = guardedTypeIs node ''ArrowFunctionExpression''"

definition isReturnStatement :: "jsv \<Rightarrow> error + jsv" where
  "isReturnStatement node = guardedTypeIs node ''ReturnStatement''"

definition isArrayExpression :: "jsv \<Rightarrow> error + jsv" where
  "isArrayExpression node = optionalTypeIs node ''ArrayExpression''"

text \<open>\<open>isRenderFunction(callNode, renderFunctions)\<close>: the callee is read inside the
  callback of \<open>some\<close>, once per use.\<close>

definition isRenderFunction :: "jsv \<Rightarrow> string list \<Rightarrow> error + bool" where
  "isRenderFunction callNode renderFunctions =
     someM (\<lambda>name.
       jsOr
         (jsAnd (andThen (getp callNode ''callee'') isIdentifier)
            (andThen (getp callNode ''callee'') (\<lambda>c.
               andThen (getp c ''name'') (\<lambda>n. Inr (JBool (strictEqStr n name))))))
         (jsAnd
            (jsAnd (andThen (getp callNode ''callee'') isMemberExpression)
               (andThen (getp callNode ''callee'') (\<lambda>c.
                  andThen (getp c ''property'') isIdentifier)))
            (andThen (getp callNode ''callee'') (\<lambda>c.
               andThen (getp c ''property'') (\<lambda>p.
                 andThen (getp p ''name'') (\<lambda>n. Inr (JBool (strictEqStr n name))))))))
       renderFunctions"

definition hasThenProperty :: "jsv \<Rightarrow> error + jsv" where
  "hasThenProperty node =
     jsAnd
       (jsAnd (isMemberExpression node) (andThen (getp node ''property'') isIdentifier))
       (andThen (getp node ''property'') (\<lambda>p.
          andThen (getp p ''name'') (\<lambda>n. Inr (JBool (strictEqStr n ''then'')))))"

definition isAwaited :: "jsv \<Rightarrow> error + jsv" where
  "isAwaited node =
     jsOr (jsOr (isAwaitExpression node) (isArrowFunctionExpression node))
       (isReturnStatement node)"

definition isPromiseResolved :: "jsv \<Rightarrow> error + jsv" where
  "isPromiseResolved node =
     andThen (getp node ''parent'') (\<lambda>parent.
       andThen (isCallExpression parent) (\<lambda>c.
         if truthy c then andThen (getp parent ''parent'') hasThenProperty
         else hasThenProperty parent))"

subsection \<open>The ascent along the parent links\<close>

lemma map_of_size_less:
  "map_of fs k = Some v \<Longrightarrow> size v < size (JObj fs)"
proof (induction fs)
  case Nil
  then show ?case by simp
next
  case (Cons a fs)
  then show ?case by (cases a) (auto split: if_splits)
qed

lemma getp_truthy_size_less:
  assumes "getp node f = Inr p" and "truthy p"
  shows "size p < size node"
proof (cases node)
  case (JObj fs)
  with assms have "map_of fs f = Some p"
    by (cases "map_of fs f") auto
  then show ?thesis using JObj by (simp only: map_of_size_less)
qed (use assms in auto)

function findClosestCallExpressionNode :: "jsv \<Rightarrow> error + jsv" where
  "findClosestCallExpressionNode node =
     (case isCallExpression node of
        Inl e \<Rightarrow> Inl e
      | Inr c \<Rightarrow>
          if truthy c then Inr node
          else (case getp node ''parent'' of
                  Inl e \<Rightarrow> Inl e
                | Inr p \<Rightarrow> if \<not> truthy p then Inr JNull
                           else findClosestCallExpressionNode p))"
  by pat_completeness auto
termination
  by (relation "measure size") (auto simp: getp_truthy_size_less)

text \<open>\<open>isCallExpression(node) && isIdentifier(node.callee) && node.callee.name === name\<close>,
  the test of the named ascent.\<close>

definition isCallNamed :: "jsv \<Rightarrow> string \<Rightarrow> error + jsv" where
  "isCallNamed node name =
     jsAnd
       (jsAnd (isCallExpression node) (andThen (getp node ''callee'') isIdentifier))
       (andThen (getp node ''callee'') (\<lambda>c.
          andThen (getp c ''name'') (\<lambda>n. Inr (JBool (strictEqStr n name)))))"

function findClosestCallNode :: "jsv \<Rightarrow> string \<Rightarrow> error + jsv" where
  "findClosestCallNode node name =
     (case getp node ''parent'' of
        Inl e \<Rightarrow> Inl e
      | Inr p \<Rightarrow>
          if \<not> truthy p then Inr JNull
          else (case isCallNamed node name of
                  Inl e \<Rightarrow> Inl e
                | Inr c \<Rightarrow> if truthy c then Inr node else findClosestCallNode p name))"
  by pat_completeness auto
termination
  by (relation "measure (\<lambda>(node, name). size node)") (auto simp: getp_truthy_size_less)

declare findClosestCallExpressionNode.simps [simp del]
declare findClosestCallNode.simps [simp del]

section \<open>Regular expressions of the host language\<close>

text \<open>
  The sources hand two patterns to the regular-expression engine of the language: the
  literal \<open>/testing-library/g\<close> and the filename pattern, a string compiled by
  \<open>String.prototype.match\<close>. The engine is not code of this repository; it is embedded
  here for the fragment of the pattern language that covers both: literal characters,
  \<open>.\<close>, escaped punctuation, character classes of plain characters (possibly negated),
  groups, alternation, the quantifiers \<open>*\<close>, \<open>+\<close>, \<open>?\<close> and the anchors \<open>^\<close> and \<open>$\<close>
  (no flags but \<open>g\<close>, which does not change whether a fresh pattern object finds a
  match). Only the existence of a match is observed by the sources, so the engine is
  embedded as a decision procedure: Brzozowski derivatives that carry the two facts an
  anchor asks about, whether the position is the start and whether it is the end of the
  input. Texts are HOL strings, so a character is one of 256 code units; of the line
  terminators of the language, line feed and carriage return are among them.
\<close>

datatype regex =
    RNever
  | REmpty
  | RChr char
  | RAny
  | RClass bool "char list"
  | RBol
  | REol
  | RSeq regex regex
  | RAlt regex regex
  | RStar regex

text \<open>\<open>.\<close> matches every character but a line terminator.\<close>

definition lineTerminator :: "char \<Rightarrow> bool" where
  "lineTerminator c = (c = CHR 0x0A \<or> c = CHR 0x0D)"

fun seq :: "regex \<Rightarrow> regex \<Rightarrow> regex" where
  "seq RNever s = RNever"
| "seq REmpty s = s"
| "seq r s = RSeq r s"

fun alt :: "regex \<Rightarrow> regex \<Rightarrow> regex" where
  "alt RNever s = s"
| "alt r RNever = r"
| "alt r s = RAlt r s"

text \<open>\<open>nullable b e r\<close>: \<open>r\<close> matches the empty word at a position that is the start of
  the input iff \<open>b\<close> and its end iff \<open>e\<close>. \<open>deriv b c r\<close>: what is left of \<open>r\<close> after reading
  the character \<open>c\<close> at a position that is the start iff \<open>b\<close>.\<close>

primrec nullable :: "bool \<Rightarrow> bool \<Rightarrow> regex \<Rightarrow> bool" where
  "nullable b e RNever = False"
| "nullable b e REmpty = True"
| "nullable b e (RChr c) = False"
| "nullable b e RAny = False"
| "nullable b e (RClass neg cs) = False"
| "nullable b e RBol = b"
| "nullable b e REol = e"
| "nullable b e (RSeq r s) = (nullable b e r \<and> nullable b e s)"
| "nullable b e (RAlt r s) = (nullable b e r \<or> nullable b e s)"
| "nullable b e (RStar r) = True"

primrec deriv :: "bool \<Rightarrow> char \<Rightarrow> regex \<Rightarrow> regex" where
  "deriv b c RNever = RNever"
| "deriv b c REmpty = RNever"
| "deriv b c (RChr d) = (if c = d then REmpty else RNever)"
| "deriv b c RAny = (if lineTerminator c then RNever else REmpty)"
| "deriv b c (RClass neg cs) = (if (c \<in> set cs) \<noteq> neg then REmpty else RNever)"
| "deriv b c RBol = RNever"
| "deriv b c REol = RNever"
| "deriv b c (RSeq r s) =
     alt (seq (deriv b c r) s) (if nullable b False r then deriv b c s else RNever)"
| "deriv b c (RAlt r s) = alt (deriv b c r) (deriv b c s)"
| "deriv b c (RStar r) = seq (deriv b c r) (RStar r)"

text \<open>A match that begins at the current position, and a match that begins at the
  current or any later position (the search of \<open>test\<close> and \<open>match\<close>).\<close>

fun matchesHere :: "bool \<Rightarrow> regex \<Rightarrow> string \<Rightarrow> bool" where
  "matchesHere b r [] = nullable b True r"
| "matchesHere b r (c # cs) = (nullable b False r \<or> matchesHere False (deriv b c r) cs)"

fun searchFrom :: "bool \<Rightarrow> regex \<Rightarrow> string \<Rightarrow> bool" where
  "searchFrom b r [] = nullable b True r"
| "searchFrom b r (c # cs) = (matchesHere b r (c # cs) \<or> searchFrom False r cs)"

definition regexSearch :: "regex \<Rightarrow> string \<Rightarrow> bool" where
  "regexSearch r s = searchFrom True r s"

subsection \<open>Compiling a pattern text\<close>

text \<open>
  One pass over the pattern text with a stack of open groups. A frame holds the
  alternatives already closed and the atoms of the alternative being read, both latest
  first; an atom carries whether a quantifier may follow it (not after an anchor, not
  after another quantifier). A text outside the fragment compiles to nothing: it is
  either refused by the engine as well (a \<open>SyntaxError\<close>) or uses syntax that is not
  embedded.
\<close>

datatype pmode = PNormal | PEscape | PClassStart | PClass bool "char list"

type_synonym pframe = "regex list \<times> (regex \<times> bool) list"

fun seqOf :: "(regex \<times> bool) list \<Rightarrow> regex" where
  "seqOf [] = REmpty"
| "seqOf [(r, q)] = r"
| "seqOf ((r, q) # rest) = RSeq (seqOf rest) r"

fun altOf :: "regex list \<Rightarrow> regex" where
  "altOf [] = RNever"
| "altOf [r] = r"
| "altOf (r # rest) = RAlt (altOf rest) r"

definition closeFrame :: "pframe \<Rightarrow> regex" where
  "closeFrame f = altOf (seqOf (snd f) # fst f)"

fun pushAtom :: "regex \<Rightarrow> bool \<Rightarrow> pframe list \<Rightarrow> pframe list option" where
  "pushAtom r q [] = None"
| "pushAtom r q ((alts, cur) # fs) = Some ((alts, (r, q) # cur) # fs)"

fun quantify :: "(regex \<Rightarrow> regex) \<Rightarrow> pframe list \<Rightarrow> pframe list option" where
  "quantify k ((alts, (r, True) # cur) # fs) = Some ((alts, (k r, False) # cur) # fs)"
| "quantify k fs = None"

text \<open>The punctuation that a backslash turns into a literal character.\<close>

definition syntaxChars :: "char list" where
  "syntaxChars = CHR 0x5C # ''^$.*+?()[]{}|/-''"

fun pstep :: "char \<Rightarrow> pmode \<times> pframe list \<Rightarrow> (pmode \<times> pframe list) option" where
  "pstep c (PEscape, fs) =
     (if c \<in> set syntaxChars then map_option (Pair PNormal) (pushAtom (RChr c) True fs)
      else None)"
| "pstep c (PClassStart, fs) =
     (if c = CHR ''^'' then Some (PClass True [], fs)
      else if c = CHR '']'' then
        map_option (Pair PNormal) (pushAtom (RClass False []) True fs)
      else if c = CHR 0x5C \<or> c = CHR ''-'' then None
      else Some (PClass False [c], fs))"
| "pstep c (PClass neg cs, fs) =
     (if c = CHR '']'' then
        map_option (Pair PNormal) (pushAtom (RClass neg (rev cs)) True fs)
      else if c = CHR 0x5C \<or> c = CHR ''-'' then None
      else Some (PClass neg (c # cs), fs))"
| "pstep c (PNormal, fs) =
     (if c = CHR 0x5C then Some (PEscape, fs)
      else if c = CHR ''['' then Some (PClassStart, fs)
      else if c = CHR ''('' then Some (PNormal, ([], []) # fs)
      else if c = CHR '')'' then
        (case fs of
           f # g # rest \<Rightarrow>
             map_option (Pair PNormal) (pushAtom (closeFrame f) True (g # rest))
         | _ \<Rightarrow> None)
      else if c = CHR ''|'' then
        (case fs of
           (alts, cur) # rest \<Rightarrow> Some (PNormal, (seqOf cur # alts, []) # rest)
         | _ \<Rightarrow> None)
      else if c = CHR ''*'' then map_option (Pair PNormal) (quantify RStar fs)
      else if c = CHR ''+'' then
        map_option (Pair PNormal) (quantify (\<lambda>r. RSeq r (RStar r)) fs)
      else if c = CHR ''?'' then
        map_option (Pair PNormal) (quantify (\<lambda>r. RAlt r REmpty) fs)
      else if c = CHR ''.'' then map_option (Pair PNormal) (pushAtom RAny True fs)
      else if c = CHR ''^'' then map_option (Pair PNormal) (pushAtom RBol False fs)
      else if c = CHR ''$'' then map_option (Pair PNormal) (pushAtom REol False fs)
      else if c = CHR ''{'' \<or> c = CHR ''}'' \<or> c = CHR '']'' then None
      else map_option (Pair PNormal) (pushAtom (RChr c) True fs))"

fun psteps :: "string \<Rightarrow> pmode \<times> pframe list \<Rightarrow> (pmode \<times> pframe list) option" where
  "psteps [] st = Some st"
| "psteps (c # cs) st = (case pstep c st of None \<Rightarrow> None | Some st' \<Rightarrow> psteps cs st')"

definition compilePattern :: "string \<Rightarrow> error + regex" where
  "compilePattern pat =
     (case psteps pat (PNormal, [([], [])]) of
        Some (PNormal, [f]) \<Rightarrow> Inr (closeFrame f)
      | _ \<Rightarrow> Inl PatternOutsideFragment)"

text \<open>\<open>new RegExp(pat).test(s)\<close>; \<open>!!s.match(pat)\<close> is the same boolean, and so is
  \<open>/pat/g.test(s)\<close> on a pattern object that has just been created.\<close>

definition regexTest :: "string \<Rightarrow> string \<Rightarrow> error + bool" where
  "regexTest pat s =
     (case compilePattern pat of Inl e \<Rightarrow> Inl e | Inr r \<Rightarrow> Inr (regexSearch r s))"

section \<open>Strings\<close>

text \<open>\<open>xs.join(sep)\<close> on texts, and \<open>String(v)\<close>, the conversion \<open>ToString\<close>: an array is
  the join of its elements with commas, where \<open>undefined\<close> and \<open>null\<close> elements count as
  empty.\<close>

fun joinWith :: "string \<Rightarrow> string list \<Rightarrow> string" where
  "joinWith sep [] = []"
| "joinWith sep [x] = x"
| "joinWith sep (x # y # ys) = x @ sep @ joinWith sep (y # ys)"

fun toString :: "jsv \<Rightarrow> string" where
  "toString JUndefined = ''undefined''"
| "toString JNull = ''null''"
| "toString (JBool b) = (if b then ''true'' else ''false'')"
| "toString (JNum n) = n"
| "toString (JStr s) = s"
| "toString (JArr xs) =
     joinWith '','' (map (\<lambda>x. if x = JUndefined \<or> x = JNull then [] else toString x) xs)"
| "toString (JObj fs) = ''[object Object]''"

text \<open>\<open>s.endsWith(searchStr)\<close> with the end position left at the length of \<open>s\<close>.\<close>

definition endsWith :: "string \<Rightarrow> string \<Rightarrow> bool" where
  "endsWith s searchStr =
     (length searchStr \<le> length s \<and> drop (length s - length searchStr) s = searchStr)"

text \<open>\<open>typeof v === 'string'\<close>.\<close>

definition typeofIsString :: "jsv \<Rightarrow> bool" where
  "typeofIsString v = (case v of JStr s \<Rightarrow> True | _ \<Rightarrow> False)"

section \<open>Detection of Testing Library (detect-testing-library-utils)\<close>

text \<open>The shared settings, the rule context (of which the sources read the settings and
  the file name) and the two variables that the callbacks of one file share. A setting
  that is absent reads as \<open>undefined\<close>.\<close>

record settings =
  testing_library_module :: "string option"
  testing_library_filename_pattern :: "string option"

record ruleContext =
  settings :: settings
  getFilename :: string

record detection =
  importedTestingLibraryNode :: jsv
  importedCustomModuleNode :: jsv

definition initialDetection :: detection where
  "initialDetection =
     \<lparr>importedTestingLibraryNode = JNull, importedCustomModuleNode = JNull\<rparr>"

definition settingValue :: "string option \<Rightarrow> jsv" where
  "settingValue s = (case s of None \<Rightarrow> JUndefined | Some x \<Rightarrow> JStr x)"

definition DEFAULT_FILENAME_PATTERN :: string where
  "DEFAULT_FILENAME_PATTERN =
     ''^.*'' @ CHR 0x5C # ''.(test|spec)'' @ CHR 0x5C # ''.[jt]sx?$''"

definition customModule :: "ruleContext \<Rightarrow> jsv" where
  "customModule ctx = settingValue (testing_library_module (settings ctx))"

text \<open>\<open>??\<close> falls back to the default only for an absent setting.\<close>

definition filenamePattern :: "ruleContext \<Rightarrow> string" where
  "filenamePattern ctx =
     (case testing_library_filename_pattern (settings ctx) of
        None \<Rightarrow> DEFAULT_FILENAME_PATTERN
      | Some p \<Rightarrow> p)"

subsection \<open>Helpers\<close>

definition getIsTestingLibraryImported :: "ruleContext \<Rightarrow> detection \<Rightarrow> bool" where
  "getIsTestingLibraryImported ctx st =
     (if \<not> truthy (customModule ctx) then True
      else truthy (importedTestingLibraryNode st) \<or> truthy (importedCustomModuleNode st))"

definition getIsValidFilename :: "ruleContext \<Rightarrow> error + bool" where
  "getIsValidFilename ctx = regexTest (filenamePattern ctx) (getFilename ctx)"

definition canReportErrors :: "ruleContext \<Rightarrow> detection \<Rightarrow> error + bool" where
  "canReportErrors ctx st =
     (if getIsTestingLibraryImported ctx st then getIsValidFilename ctx else Inr False)"

text \<open>Modelled from the spec: \<open>isImportDeclaration\<close> is imported from \<open>node-utils\<close>, but the
  copy of that file at hand does not define it. The spec lists "import declarations"
  among the shapes of the node classifier, whose predicates treat a node that lacks the
  expected fields as a non-match; it is written here like its sibling
  \<open>isImportNamespaceSpecifier\<close>.\<close>

definition isImportDeclaration :: "jsv \<Rightarrow> error + jsv" where
  "isImportDeclaration node = optionalTypeIs node ''ImportDeclaration''"

text \<open>\<open>a ?? b\<close>.\<close>

definition nullishOr :: "jsv \<Rightarrow> jsv \<Rightarrow> jsv" where
  "nullishOr a b = (if a = JNull \<or> a = JUndefined then b else a)"

text \<open>The two callbacks that \<open>findImportedUtilSpecifier\<close> hands to \<open>find\<close>.\<close>

definition namedSpecifierTest :: "string \<Rightarrow> jsv \<Rightarrow> error + jsv" where
  "namedSpecifierTest specifierName n =
     jsAnd (isImportSpecifier n)
       (andThen (getp n ''imported'') (\<lambda>i.
          andThen (getp i ''name'') (\<lambda>nm. Inr (JBool (strictEqStr nm specifierName)))))"

definition propertyKeyTest :: "string \<Rightarrow> jsv \<Rightarrow> error + jsv" where
  "propertyKeyTest specifierName n =
     jsAnd (jsAnd (isProperty n) (andThen (getp n ''key'') isIdentifier))
       (andThen (getp n ''key'') (\<lambda>k.
          andThen (getp k ''name'') (\<lambda>nm. Inr (JBool (strictEqStr nm specifierName)))))"

text \<open>The body of \<open>findImportedUtilSpecifier\<close> once a recorded node has been selected:
  the branch of a static declaration, the branch of a \<open>require\<close> call, and the choice
  between the two.\<close>

definition specifierOfDeclaration :: "jsv \<Rightarrow> string \<Rightarrow> error + jsv" where
  "specifierOfDeclaration node specifierName =
     andThen (getp node ''specifiers'') (\<lambda>specifiers.
       andThen (arrayFind specifiers (namedSpecifierTest specifierName)) (\<lambda>namedExport.
         if truthy namedExport then Inr namedExport
         else andThen (getp node ''specifiers'') (\<lambda>specifiers.
                arrayFind specifiers isImportNamespaceSpecifier)))"

definition specifierOfRequire :: "jsv \<Rightarrow> string \<Rightarrow> error + jsv" where
  "specifierOfRequire node specifierName =
     andThen (getp node ''parent'') (\<lambda>requireNode.
       andThen (andThen (getp requireNode ''id'') isIdentifier) (\<lambda>c.
         if truthy c then getp requireNode ''id''
         else andThen (getp requireNode ''id'') (\<lambda>destructuring.
                andThen (getp destructuring ''properties'') (\<lambda>properties.
                  andThen (arrayFind properties (propertyKeyTest specifierName))
                    (\<lambda>property. getp property ''key'')))))"

definition specifierOfNode :: "jsv \<Rightarrow> string \<Rightarrow> error + jsv" where
  "specifierOfNode node specifierName =
     andThen (isImportDeclaration node) (\<lambda>d.
       if truthy d then specifierOfDeclaration node specifierName
       else specifierOfRequire node specifierName)"

definition findImportedUtilSpecifier :: "detection \<Rightarrow> string \<Rightarrow> error + jsv" where
  "findImportedUtilSpecifier st specifierName =
     (let node = nullishOr (importedCustomModuleNode st) (importedTestingLibraryNode st)
      in if \<not> truthy node then Inr JNull else specifierOfNode node specifierName)"

subsection \<open>Detection callbacks\<close>

text \<open>A callback returns the variables as it leaves them, and the fault if it raised:
  an assignment made before a raise stays made.\<close>

definition sourceValue :: "jsv \<Rightarrow> error + jsv" where
  "sourceValue node = andThen (getp node ''source'') (\<lambda>s. getp s ''value'')"

definition ImportDeclaration ::
  "ruleContext \<Rightarrow> jsv \<Rightarrow> detection \<Rightarrow> detection \<times> error option" where
  "ImportDeclaration ctx node st =
     (case (if \<not> truthy (importedTestingLibraryNode st)
            then andThen (sourceValue node) (\<lambda>v. regexTest ''testing-library'' (toString v))
            else Inr False) of
        Inl e \<Rightarrow> (st, Some e)
      | Inr c1 \<Rightarrow>
          (let st1 = (if c1 then st\<lparr>importedTestingLibraryNode := node\<rparr> else st) in
           case (if \<not> truthy (importedCustomModuleNode st1)
                 then andThen (sourceValue node) (\<lambda>v.
                        Inr (endsWith (toString v) (toString (customModule ctx))))
                 else Inr False) of
             Inl e \<Rightarrow> (st1, Some e)
           | Inr c2 \<Rightarrow>
               ((if c2 then st1\<lparr>importedCustomModuleNode := node\<rparr> else st1), None)))"

text \<open>The callbacks that the \<open>require\<close> listener hands to \<open>some\<close>. Behind the \<open>typeof\<close>
  test the value is a string, so \<open>test\<close> and \<open>endsWith\<close> get it as it is.\<close>

definition markerArgument :: "jsv \<Rightarrow> error + jsv" where
  "markerArgument arg =
     jsAnd
       (jsAnd (isLiteral arg)
          (andThen (getp arg ''value'') (\<lambda>v. Inr (JBool (typeofIsString v)))))
       (andThen (getp arg ''value'') (\<lambda>v.
          andThen (regexTest ''testing-library'' (toString v)) (\<lambda>b. Inr (JBool b))))"

definition customModuleArgument :: "ruleContext \<Rightarrow> jsv \<Rightarrow> error + jsv" where
  "customModuleArgument ctx arg =
     jsAnd
       (jsAnd (isLiteral arg)
          (andThen (getp arg ''value'') (\<lambda>v. Inr (JBool (typeofIsString v)))))
       (andThen (getp arg ''value'') (\<lambda>v.
          Inr (JBool (endsWith (toString v) (toString (customModule ctx))))))"

definition CallExpression_Identifier_require ::
  "ruleContext \<Rightarrow> jsv \<Rightarrow> detection \<Rightarrow> detection \<times> error option" where
  "CallExpression_Identifier_require ctx node st =
     (case andThen (getp node ''parent'') (\<lambda>callExpression.
             andThen (getp callExpression ''arguments'') (\<lambda>args.
               Inr (callExpression, args))) of
        Inl e \<Rightarrow> (st, Some e)
      | Inr (callExpression, args) \<Rightarrow>
          (case (if \<not> truthy (importedTestingLibraryNode st)
                 then arraySome args markerArgument else Inr False) of
             Inl e \<Rightarrow> (st, Some e)
           | Inr c1 \<Rightarrow>
               (let st1 = (if c1 then st\<lparr>importedTestingLibraryNode := callExpression\<rparr>
                           else st) in
                case (if \<not> truthy (importedCustomModuleNode st1)
                      then arraySome args (customModuleArgument ctx) else Inr False) of
                  Inl e \<Rightarrow> (st1, Some e)
                | Inr c2 \<Rightarrow>
                    ((if c2 then st1\<lparr>importedCustomModuleNode := callExpression\<rparr>
                      else st1), None))))"

text \<open>The selector of the second callback, \<open>CallExpression > Identifier[name="require"]\<close>.\<close>

definition requireSelector :: string where
  "requireSelector =
     ''CallExpression > Identifier[name='' @ CHR 0x22 # ''require'' @ CHR 0x22 # '']''"

definition detectionInstructions ::
  "ruleContext \<Rightarrow> (string \<times> (jsv \<Rightarrow> detection \<Rightarrow> detection \<times> error option)) list" where
  "detectionInstructions ctx =
     [(''ImportDeclaration'', ImportDeclaration ctx),
      (requireSelector, CallExpression_Identifier_require ctx)]"

subsection \<open>Merging the detection callbacks into a rule\<close>

text \<open>
  A rule's callback may read the detection variables through the helpers, keeps a state
  of its own (its reports among it) and returns a value or raises. The rule's table
  \<open>ruleInstructions\<close> is what \<open>ruleCreate\<close> returned. A merged callback works on both
  states and returns the outcome of the visit.
\<close>

type_synonym 'rs listener = "jsv \<Rightarrow> detection \<Rightarrow> 'rs \<Rightarrow> (error + jsv) \<times> 'rs"

type_synonym 'rs enhanced = "jsv \<Rightarrow> detection \<times> 'rs \<Rightarrow> (error + jsv) \<times> detection \<times> 'rs"

text \<open>\<open>new Set(xs)\<close> keeps the first occurrence of each key, in order.\<close>

fun keySet :: "string list \<Rightarrow> string list \<Rightarrow> string list" where
  "keySet seen [] = []"
| "keySet seen (k # ks) =
     (if k \<in> set seen then keySet seen ks else k # keySet (k # seen) ks)"

definition allKeys :: "ruleContext \<Rightarrow> (string \<times> 'rs listener) list \<Rightarrow> string list" where
  "allKeys ctx ruleInstructions =
     keySet [] (map fst (detectionInstructions ctx) @ map fst ruleInstructions)"

text \<open>
  The names of the properties that every object literal inherits from
  \<open>Object.prototype\<close>. The operator \<open>in\<close> holds of them for \<open>detectionInstructions\<close>
  although the table has no callback of its own under them.
\<close>

definition objectPrototypeNames :: "string list" where
  "objectPrototypeNames =
     [''constructor'', ''hasOwnProperty'', ''isPrototypeOf'', ''propertyIsEnumerable'',
      ''toLocaleString'', ''toString'', ''valueOf'', ''__proto__'', ''__defineGetter__'',
      ''__defineSetter__'', ''__lookupGetter__'', ''__lookupSetter__'']"

text \<open>\<open>if (instruction in detectionInstructions) detectionInstructions[instruction](node)\<close>.
  The table is looked up by its own keys. For a key outside \<open>objectPrototypeNames\<close>
  this is what \<open>in\<close> and the call do; under a key of \<open>objectPrototypeNames\<close> the source
  calls the inherited property instead, which is not described here, and the properties
  of the merged callback are stated for the other keys.\<close>

definition runDetection ::
  "ruleContext \<Rightarrow> string \<Rightarrow> jsv \<Rightarrow> detection \<Rightarrow> detection \<times> error option" where
  "runDetection ctx instruction node st =
     (case map_of (detectionInstructions ctx) instruction of
        Some d \<Rightarrow> d node st
      | None \<Rightarrow> (st, None))"

definition enhancedListener ::
  "ruleContext \<Rightarrow> (string \<times> 'rs listener) list \<Rightarrow> string \<Rightarrow> 'rs enhanced" where
  "enhancedListener ctx ruleInstructions instruction node s =
     (case s of (st, rs) \<Rightarrow>
       (case runDetection ctx instruction node st of
          (st1, Some e) \<Rightarrow> (Inl e, st1, rs)
        | (st1, None) \<Rightarrow>
            (case canReportErrors ctx st1 of
               Inl e \<Rightarrow> (Inl e, st1, rs)
             | Inr ok \<Rightarrow>
                 (case (if ok then map_of ruleInstructions instruction else None) of
                    Some r \<Rightarrow> (case r node st1 rs of (res, rs') \<Rightarrow> (res, st1, rs'))
                  | None \<Rightarrow> (Inr JUndefined, st1, rs)))))"

definition detectTestingLibraryUtils ::
  "ruleContext \<Rightarrow> (string \<times> 'rs listener) list \<Rightarrow> (string \<times> 'rs enhanced) list" where
  "detectTestingLibraryUtils ctx ruleInstructions =
     map (\<lambda>instruction. (instruction, enhancedListener ctx ruleInstructions instruction))
       (allKeys ctx ruleInstructions)"

text \<open>The detection callbacks over the visits of one traversal, each visit a selector
  and the node it matched, until a callback raises.\<close>

fun detectAll ::
  "ruleContext \<Rightarrow> (string \<times> jsv) list \<Rightarrow> detection \<Rightarrow> detection \<times> error option" where
  "detectAll ctx [] st = (st, None)"
| "detectAll ctx ((k, node) # visits) st =
     (case map_of (detectionInstructions ctx) k of
        None \<Rightarrow> detectAll ctx visits st
      | Some d \<Rightarrow>
          (case d node st of
             (st1, Some e) \<Rightarrow> (st1, Some e)
           | (st1, None) \<Rightarrow> detectAll ctx visits st1))"

text \<open>The traversal as the host engine runs it on the merged table: each visit calls the
  merged callback of its selector, if the table has one, and a raise ends the traversal.\<close>

fun traverse ::
  "(string \<times> 'rs enhanced) list \<Rightarrow> (string \<times> jsv) list \<Rightarrow> detection \<times> 'rs \<Rightarrow>
   error option \<times> detection \<times> 'rs" where
  "traverse table [] s = (None, s)"
| "traverse table ((k, node) # visits) s =
     (case map_of table k of
        None \<Rightarrow> traverse table visits s
      | Some f \<Rightarrow>
          (case f node s of
             (Inl e, s') \<Rightarrow> (Some e, s')
           | (Inr v, s') \<Rightarrow> traverse table visits s'))"

section \<open>Vocabulary for the statements\<close>

text \<open>\<open>hasType v tag\<close>: the value is an object whose \<open>type\<close> field is the string \<open>tag\<close>.
  \<open>field v f\<close>: the field of an object, \<open>undefined\<close> when it is missing or the value is
  not an object. \<open>answers res b\<close>: the call returned normally, with a value whose
  truthiness is \<open>b\<close>.\<close>

definition hasType :: "jsv \<Rightarrow> string \<Rightarrow> bool" where
  "hasType v tag =
     (case v of JObj fs \<Rightarrow> map_of fs ''type'' = Some (JStr tag) | _ \<Rightarrow> False)"

definition field :: "jsv \<Rightarrow> string \<Rightarrow> jsv" where
  "field v f =
     (case v of
        JObj fs \<Rightarrow> (case map_of fs f of None \<Rightarrow> JUndefined | Some x \<Rightarrow> x)
      | _ \<Rightarrow> JUndefined)"

definition answers :: "error + jsv \<Rightarrow> bool \<Rightarrow> bool" where
  "answers res b = (case res of Inl e \<Rightarrow> False | Inr r \<Rightarrow> truthy r = b)"

text \<open>The callee of a call node is the identifier \<open>name\<close>, or a member expression whose
  property is the identifier \<open>name\<close>.\<close>

definition calleeNamed :: "jsv \<Rightarrow> string \<Rightarrow> bool" where
  "calleeNamed callNode name =
     (let c = field callNode ''callee'' in
        (hasType c ''Identifier'' \<and> field c ''name'' = JStr name) \<or>
        (hasType c ''MemberExpression'' \<and> hasType (field c ''property'') ''Identifier'' \<and>
         field (field c ''property'') ''name'' = JStr name))"

text \<open>A member expression whose property is the identifier \<open>then\<close>.\<close>

definition thenAccess :: "jsv \<Rightarrow> bool" where
  "thenAccess v =
     (hasType v ''MemberExpression'' \<and> hasType (field v ''property'') ''Identifier'' \<and>
      field (field v ''property'') ''name'' = JStr ''then'')"

text \<open>The call \<open>render()\<close> standing at the root: a call node without parent.\<close>

definition renderCallAtRoot :: jsv where
  "renderCallAtRoot =
     JObj [(''type'', JStr ''CallExpression''),
           (''callee'', JObj [(''type'', JStr ''Identifier''), (''name'', JStr ''render'')]),
           (''arguments'', JArr []),
           (''parent'', JNull)]"

text \<open>
  What a pattern matches, stated without the engine: \<open>lang r b e w\<close> holds when \<open>r\<close>
  matches the word \<open>w\<close> standing at a place of the input that begins at the start of the
  input iff \<open>b\<close> and ends at its end iff \<open>e\<close>. A repetition is a sequence of non-empty
  matches of its body.
\<close>

inductive starLang ::
  "(bool \<Rightarrow> bool \<Rightarrow> string \<Rightarrow> bool) \<Rightarrow> bool \<Rightarrow> bool \<Rightarrow> string \<Rightarrow> bool"
  for L :: "bool \<Rightarrow> bool \<Rightarrow> string \<Rightarrow> bool" where
  starNil: "starLang L b e []"
| starStep:
    "u \<noteq> [] \<Longrightarrow> L b (e \<and> v = []) u \<Longrightarrow> starLang L False e v \<Longrightarrow> starLang L b e (u @ v)"

primrec lang :: "regex \<Rightarrow> bool \<Rightarrow> bool \<Rightarrow> string \<Rightarrow> bool" where
  "lang RNever b e w = False"
| "lang REmpty b e w = (w = [])"
| "lang (RChr c) b e w = (w = [c])"
| "lang RAny b e w = (\<exists>c. w = [c] \<and> \<not> lineTerminator c)"
| "lang (RClass neg cs) b e w = (\<exists>c. w = [c] \<and> (c \<in> set cs) \<noteq> neg)"
| "lang RBol b e w = (w = [] \<and> b)"
| "lang REol b e w = (w = [] \<and> e)"
| "lang (RSeq r s) b e w =
     (\<exists>u v. w = u @ v \<and> lang r b (e \<and> v = []) u \<and> lang s (b \<and> u = []) e v)"
| "lang (RAlt r s) b e w = (lang r b e w \<or> lang s b e w)"
| "lang (RStar r) b e w = starLang (lang r) b e w"





subsection \<open>Sample nodes and contexts\<close>

text \<open>Nodes as the parser builds them, cut down to the fields that the sources read.\<close>

definition identifierNode :: "string \<Rightarrow> jsv" where
  "identifierNode name = JObj [(''type'', JStr ''Identifier''), (''name'', JStr name)]"

definition literalNode :: "string \<Rightarrow> jsv" where
  "literalNode s = JObj [(''type'', JStr ''Literal''), (''value'', JStr s)]"

definition importSpecifierNode :: "string \<Rightarrow> string \<Rightarrow> jsv" where
  "importSpecifierNode importedName localName =
     JObj [(''type'', JStr ''ImportSpecifier''),
           (''imported'', identifierNode importedName),
           (''local'', identifierNode localName)]"

definition importDeclarationNode :: "jsv list \<Rightarrow> string \<Rightarrow> jsv" where
  "importDeclarationNode specifiers src =
     JObj [(''type'', JStr ''ImportDeclaration''),
           (''specifiers'', JArr specifiers),
           (''source'', literalNode src)]"

text \<open>The call \<open>require(src)\<close> in \<open>const target = require(src)\<close>: its parent is the
  variable declarator, whose \<open>id\<close> is the binding target.\<close>

definition requireCallNode :: "jsv \<Rightarrow> string \<Rightarrow> jsv" where
  "requireCallNode target src =
     JObj [(''type'', JStr ''CallExpression''),
           (''callee'', identifierNode ''require''),
           (''arguments'', JArr [literalNode src]),
           (''parent'', JObj [(''type'', JStr ''VariableDeclarator''), (''id'', target)])]"

text \<open>The identifier \<open>require\<close> of that call, which is the node the listener receives.\<close>

definition requireIdentifier :: "jsv \<Rightarrow> string \<Rightarrow> jsv" where
  "requireIdentifier target src =
     JObj [(''type'', JStr ''Identifier''), (''name'', JStr ''require''),
           (''parent'', requireCallNode target src)]"

text \<open>A context with the custom module \<open>test-utils\<close> configured, and one without; two
  imports of Testing Library packages and two imports that end with the custom module
  name; a traversal that meets the second of each and two \<open>require\<close> calls.\<close>

definition customContext :: ruleContext where
  "customContext =
     \<lparr>settings =
        \<lparr>testing_library_module = Some ''test-utils'',
         testing_library_filename_pattern = None\<rparr>,
      getFilename = ''app.test.js''\<rparr>"

definition reactImport :: jsv where
  "reactImport =
     importDeclarationNode [importSpecifierNode ''render'' ''render'']
       ''@testing-library/react''"

definition domImport :: jsv where
  "domImport =
     importDeclarationNode [importSpecifierNode ''screen'' ''screen''] ''@testing-library/dom''"

definition utilsImport :: jsv where
  "utilsImport =
     importDeclarationNode [importSpecifierNode ''render'' ''render''] ''../test-utils''"

definition otherUtilsImport :: jsv where
  "otherUtilsImport =
     importDeclarationNode [importSpecifierNode ''renderHook'' ''renderHook'']
       ''../hooks/test-utils''"

definition laterVisits :: "(string \<times> jsv) list" where
  "laterVisits =
     [(''ImportDeclaration'', domImport),
      (''ImportDeclaration'', otherUtilsImport),
      (requireSelector, requireIdentifier (identifierNode ''vue'') ''@testing-library/vue''),
      (requireSelector, requireIdentifier (identifierNode ''u'') ''./more/test-utils'')]"

definition plainContext :: ruleContext where
  "plainContext =
     \<lparr>settings =
        \<lparr>testing_library_module = None, testing_library_filename_pattern = None\<rparr>,
      getFilename = ''app.test.js''\<rparr>"

definition undefinedImport :: jsv where
  "undefinedImport =
     importDeclarationNode [importSpecifierNode ''isUndefined'' ''isUndefined'']
       ''./is-undefined''"

definition bothRecorded :: detection where
  "bothRecorded =
     \<lparr>importedTestingLibraryNode = reactImport, importedCustomModuleNode = utilsImport\<rparr>"

subsection \<open>Specifiers\<close>

text \<open>A named import specifier that imports \<open>name\<close>; a namespace specifier; a specifier
  whose \<open>imported\<close> field is there; the first element that satisfies a test, or a
  default. More sample nodes: \<open>* as rtl\<close>, a default import, and two declarations.\<close>

definition namedSpecifier :: "string \<Rightarrow> jsv \<Rightarrow> bool" where
  "namedSpecifier name n =
     (hasType n ''ImportSpecifier'' \<and> field (field n ''imported'') ''name'' = JStr name)"

definition namespaceSpecifier :: "jsv \<Rightarrow> bool" where
  "namespaceSpecifier n = hasType n ''ImportNamespaceSpecifier''"

definition importedPresent :: "jsv \<Rightarrow> bool" where
  "importedPresent n = (field n ''imported'' \<noteq> JUndefined \<and> field n ''imported'' \<noteq> JNull)"

definition firstOr :: "('a \<Rightarrow> bool) \<Rightarrow> 'a list \<Rightarrow> 'a \<Rightarrow> 'a" where
  "firstOr q xs d = (case find q xs of Some x \<Rightarrow> x | None \<Rightarrow> d)"

definition namespaceSpecifierNode :: "string \<Rightarrow> jsv" where
  "namespaceSpecifierNode localName =
     JObj [(''type'', JStr ''ImportNamespaceSpecifier''), (''local'', identifierNode localName)]"

definition defaultSpecifierNode :: "string \<Rightarrow> jsv" where
  "defaultSpecifierNode localName =
     JObj [(''type'', JStr ''ImportDefaultSpecifier''), (''local'', identifierNode localName)]"

definition recordedLibrary :: "jsv \<Rightarrow> detection" where
  "recordedLibrary node =
     \<lparr>importedTestingLibraryNode = node, importedCustomModuleNode = JNull\<rparr>"

definition aliasedImport :: jsv where
  "aliasedImport =
     importDeclarationNode
       [defaultSpecifierNode ''rtl'', importSpecifierNode ''screen'' ''screen'',
        importSpecifierNode ''render'' ''doRender'']
       ''@testing-library/react''"

definition namespaceImport :: jsv where
  "namespaceImport =
     importDeclarationNode [namespaceSpecifierNode ''rtl''] ''@testing-library/react''"

subsection \<open>Recorded nodes and destructuring patterns\<close>

text \<open>A variable of the tracker is empty or holds a node object. A property of a
  destructuring pattern whose key is the identifier \<open>name\<close>.\<close>

definition isNode :: "jsv \<Rightarrow> bool" where
  "isNode v = (case v of JObj fs \<Rightarrow> True | _ \<Rightarrow> False)"

definition emptyOrNode :: "jsv \<Rightarrow> bool" where
  "emptyOrNode v = (v = JNull \<or> isNode v)"

definition keyNamed :: "string \<Rightarrow> jsv \<Rightarrow> bool" where
  "keyNamed name n =
     (hasType n ''Property'' \<and> hasType (field n ''key'') ''Identifier'' \<and>
      field (field n ''key'') ''name'' = JStr name)"

definition propertyNode :: "string \<Rightarrow> string \<Rightarrow> jsv" where
  "propertyNode keyName localName =
     JObj [(''type'', JStr ''Property''),
           (''key'', identifierNode keyName),
           (''value'', identifierNode localName)]"

definition objectPatternNode :: "jsv list \<Rightarrow> jsv" where
  "objectPatternNode properties =
     JObj [(''type'', JStr ''ObjectPattern''), (''properties'', JArr properties)]"

text \<open>The traversal of a file whose only import is
  \<open>const { screen, render: r } = require('@testing-library/react')\<close>, and the traversal
  of a file that imports Testing Library and then the custom module.\<close>

definition destructuredRequire :: "(string \<times> jsv) list" where
  "destructuredRequire =
     [(requireSelector,
       requireIdentifier
         (objectPatternNode [propertyNode ''screen'' ''screen'', propertyNode ''render'' ''r''])
         ''@testing-library/react'')]"

definition libraryThenCustom :: "(string \<times> jsv) list" where
  "libraryThenCustom =
     [(''ImportDeclaration'', aliasedImport), (''ImportDeclaration'', utilsImport)]"

subsection \<open>A sample rule\<close>

text \<open>A rule that reports every import declaration and every variable declarator it is
  shown: its state is the list of the nodes reported so far. An import of a module that
  is neither Testing Library nor the custom module.\<close>

definition reportingRule :: "jsv list listener" where
  "reportingRule node st reports = (Inr (JStr ''reported''), reports @ [node])"

definition reportImports :: "(string \<times> jsv list listener) list" where
  "reportImports =
     [(''ImportDeclaration'', reportingRule), (''VariableDeclarator'', reportingRule)]"

text \<open>A context whose filename pattern, an unclosed group, is no pattern at all.\<close>

definition brokenPatternContext :: ruleContext where
  "brokenPatternContext =
     \<lparr>settings =
        \<lparr>testing_library_module = None, testing_library_filename_pattern = Some ''(''\<rparr>,
      getFilename = ''app.test.js''\<rparr>"

definition otherImport :: jsv where
  "otherImport = importDeclarationNode [importSpecifierNode ''render'' ''render''] ''other-lib''"

section \<open>Properties of the node classifier\<close>

lemma answersE:
  "answers res b \<Longrightarrow> (\<And>r. res = Inr r \<Longrightarrow> truthy r = b \<Longrightarrow> P) \<Longrightarrow> P"
  by (cases res) (auto simp: answers_def)

lemma guardedTypeIs_answers: "answers (guardedTypeIs v tag) (hasType v tag)"
  by (cases v)
    (auto simp: answers_def guardedTypeIs_def jsAnd_def andThen_def hasType_def
      strictEqStr_def split: option.splits)

lemma optionalTypeIs_answers: "answers (optionalTypeIs v tag) (hasType v tag)"
  by (cases v)
    (auto simp: answers_def optionalTypeIs_def andThen_def hasType_def
      strictEqStr_def split: option.splits)

lemma getp_field: "v \<noteq> JUndefined \<Longrightarrow> v \<noteq> JNull \<Longrightarrow> getp v f = Inr (field v f)"
  by (cases v) (auto simp: field_def)

lemma hasType_not_nullish: "hasType v tag \<Longrightarrow> v \<noteq> JUndefined \<and> v \<noteq> JNull"
  by (auto simp: hasType_def)

lemma jsAnd_answers:
  "answers a p \<Longrightarrow> (p \<Longrightarrow> answers b q) \<Longrightarrow> answers (jsAnd a b) (p \<and> q)"
  by (cases a; cases b) (auto simp: answers_def jsAnd_def)

lemma jsOr_answers:
  "answers a p \<Longrightarrow> (\<not> p \<Longrightarrow> answers b q) \<Longrightarrow> answers (jsOr a b) (p \<or> q)"
  by (cases a; cases b) (auto simp: answers_def jsOr_def)

lemma nameIs_answers:
  "c \<noteq> JUndefined \<Longrightarrow> c \<noteq> JNull \<Longrightarrow>
   answers (andThen (getp c ''name'') (\<lambda>n. Inr (JBool (strictEqStr n name))))
     (field c ''name'' = JStr name)"
  by (simp add: getp_field andThen_def answers_def strictEqStr_def)

lemma identifierNamed_answers:
  assumes "c \<noteq> JUndefined" "c \<noteq> JNull"
  shows "answers
     (jsAnd (andThen (getp c f) isIdentifier)
        (andThen (getp c f) (\<lambda>p.
           andThen (getp p ''name'') (\<lambda>n. Inr (JBool (strictEqStr n name))))))
     (hasType (field c f) ''Identifier'' \<and> field (field c f) ''name'' = JStr name)"
proof -
  have g: "getp c f = Inr (field c f)"
    using assms by (rule getp_field)
  have a: "answers (isIdentifier (field c f)) (hasType (field c f) ''Identifier'')"
    by (simp add: isIdentifier_def guardedTypeIs_answers)
  have b: "answers
      (andThen (getp (field c f) ''name'') (\<lambda>n. Inr (JBool (strictEqStr n name))))
      (field (field c f) ''name'' = JStr name)"
    if "hasType (field c f) ''Identifier''"
    using hasType_not_nullish[OF that] by (simp add: nameIs_answers)
  show ?thesis
    using jsAnd_answers[OF a b] by (simp add: g andThen_def)
qed

lemma hasThenProperty_answers:
  "answers (hasThenProperty v)
     (hasType v ''MemberExpression'' \<and> hasType (field v ''property'') ''Identifier'' \<and>
      field (field v ''property'') ''name'' = JStr ''then'')"
proof -
  have a: "answers (isMemberExpression v) (hasType v ''MemberExpression'')"
    by (simp add: isMemberExpression_def guardedTypeIs_answers)
  have b: "answers
      (jsAnd (andThen (getp v ''property'') isIdentifier)
         (andThen (getp v ''property'') (\<lambda>p.
            andThen (getp p ''name'') (\<lambda>n. Inr (JBool (strictEqStr n ''then''))))))
      (hasType (field v ''property'') ''Identifier'' \<and>
       field (field v ''property'') ''name'' = JStr ''then'')"
    if "hasType v ''MemberExpression''"
    using hasType_not_nullish[OF that] by (simp add: identifierNamed_answers)
  have assoc: "jsAnd (jsAnd x y) z = jsAnd x (jsAnd y z)" for x y z
    by (cases x; cases y) (auto simp: jsAnd_def)
  show ?thesis
    unfolding hasThenProperty_def assoc
    using jsAnd_answers[OF a b] by simp
qed

lemma isAwaited_answers:
  "answers (isAwaited v)
     (hasType v ''AwaitExpression'' \<or> hasType v ''ArrowFunctionExpression'' \<or>
      hasType v ''ReturnStatement'')"
  unfolding isAwaited_def isAwaitExpression_def isArrowFunctionExpression_def
    isReturnStatement_def
  using jsOr_answers[OF jsOr_answers[OF guardedTypeIs_answers guardedTypeIs_answers]
      guardedTypeIs_answers]
  by (simp add: disj_assoc)

lemma renderTest_answers:
  assumes "callNode \<noteq> JUndefined" "callNode \<noteq> JNull"
  shows "answers
     (jsOr
        (jsAnd (andThen (getp callNode ''callee'') isIdentifier)
           (andThen (getp callNode ''callee'') (\<lambda>c.
              andThen (getp c ''name'') (\<lambda>n. Inr (JBool (strictEqStr n name))))))
        (jsAnd
           (jsAnd (andThen (getp callNode ''callee'') isMemberExpression)
              (andThen (getp callNode ''callee'') (\<lambda>c.
                 andThen (getp c ''property'') isIdentifier)))
           (andThen (getp callNode ''callee'') (\<lambda>c.
              andThen (getp c ''property'') (\<lambda>p.
                andThen (getp p ''name'') (\<lambda>n. Inr (JBool (strictEqStr n name))))))))
     (calleeNamed callNode name)"
proof -
  define c where "c = field callNode ''callee''"
  have g: "getp callNode ''callee'' = Inr c"
    using assms by (simp add: getp_field c_def)
  have a: "answers
      (jsAnd (isIdentifier c)
         (andThen (getp c ''name'') (\<lambda>n. Inr (JBool (strictEqStr n name)))))
      (hasType c ''Identifier'' \<and> field c ''name'' = JStr name)"
    using identifierNamed_answers[OF assms, of "''callee''" name]
    by (simp add: g andThen_def c_def)
  have m: "answers (isMemberExpression c) (hasType c ''MemberExpression'')"
    by (simp add: isMemberExpression_def guardedTypeIs_answers)
  have p: "answers
      (jsAnd (andThen (getp c ''property'') isIdentifier)
         (andThen (getp c ''property'') (\<lambda>p.
            andThen (getp p ''name'') (\<lambda>n. Inr (JBool (strictEqStr n name))))))
      (hasType (field c ''property'') ''Identifier'' \<and>
       field (field c ''property'') ''name'' = JStr name)"
    if "hasType c ''MemberExpression''"
    using hasType_not_nullish[OF that] by (simp add: identifierNamed_answers)
  have assoc: "jsAnd (jsAnd x y) z = jsAnd x (jsAnd y z)" for x y z
    by (cases x; cases y) (auto simp: jsAnd_def)
  show ?thesis
    using jsOr_answers[OF a jsAnd_answers[OF m p]]
    by (simp add: g andThen_def[of "Inr x" for x] assoc calleeNamed_def
        c_def[symmetric] Let_def)
qed

lemma isPromiseResolved_answers:
  "answers (isPromiseResolved (JObj fs))
     (if hasType (field (JObj fs) ''parent'') ''CallExpression''
      then thenAccess (field (field (JObj fs) ''parent'') ''parent'')
      else thenAccess (field (JObj fs) ''parent''))"
proof -
  define p where "p = field (JObj fs) ''parent''"
  have g: "getp (JObj fs) ''parent'' = Inr p"
    by (simp add: p_def field_def)
  from guardedTypeIs_answers[of p "''CallExpression''"]
  obtain c where c: "isCallExpression p = Inr c" "truthy c = hasType p ''CallExpression''"
    by (auto simp: isCallExpression_def elim: answersE)
  show ?thesis
  proof (cases "hasType p ''CallExpression''")
    case True
    then have "getp p ''parent'' = Inr (field p ''parent'')"
      using hasType_not_nullish[OF True] by (simp add: getp_field)
    then show ?thesis
      using True c g hasThenProperty_answers[of "field p ''parent''"]
      by (simp add: isPromiseResolved_def andThen_def thenAccess_def p_def[symmetric])
  next
    case False
    then show ?thesis
      using c g hasThenProperty_answers[of p]
      by (simp add: isPromiseResolved_def andThen_def thenAccess_def p_def[symmetric])
  qed
qed

lemma someM_answers:
  assumes "\<And>x. x \<in> set xs \<Longrightarrow> answers (p x) (q x)"
  shows "someM p xs = Inr (\<exists>x\<in>set xs. q x)"
  using assms
proof (induction xs)
  case Nil
  then show ?case by simp
next
  case (Cons x xs)
  from Cons.prems[of x] obtain r where r: "p x = Inr r" "truthy r = q x"
    by (auto elim: answersE)
  with Cons show ?case by auto
qed

text \<open>
  Claim C9. Every shape predicate of the node classifier is total: on any value at all
  (a node of another kind, an object without a \<open>type\<close> field, a primitive, \<open>null\<close>,
  \<open>undefined\<close>) it returns normally, and what it returns is truthy exactly when the value
  is an object whose \<open>type\<close> is the kind asked for; so an unexpected shape is answered by a
  non-match and never by a fault. The same holds for the composite predicates
  \<open>hasThenProperty\<close> and \<open>isAwaited\<close>; \<open>isRenderFunction\<close> and \<open>isPromiseResolved\<close>, which
  read a field of their argument before any test, return normally on every node object,
  whatever fields it has. The predicates only read their argument: their bodies contain
  no assignment, which is why they are functions from the value to the answer.
\<close>

theorem classifier_predicates_total:
  "answers (isCallExpression v) (hasType v ''CallExpression'') \<and>
   answers (isIdentifier v) (hasType v ''Identifier'') \<and>
   answers (isMemberExpression v) (hasType v ''MemberExpression'') \<and>
   answers (isLiteral v) (hasType v ''Literal'') \<and>
   answers (isImportSpecifier v) (hasType v ''ImportSpecifier'') \<and>
   answers (isImportNamespaceSpecifier v) (hasType v ''ImportNamespaceSpecifier'') \<and>
   answers (isImportDefaultSpecifier v) (hasType v ''ImportDefaultSpecifier'') \<and>
   answers (isBlockStatement v) (hasType v ''BlockStatement'') \<and>
   answers (isVariableDeclarator v) (hasType v ''VariableDeclarator'') \<and>
   answers (isObjectPattern v) (hasType v ''ObjectPattern'') \<and>
   answers (isProperty v) (hasType v ''Property'') \<and>
   answers (isJSXAttribute v) (hasType v ''JSXAttribute'') \<and>
   answers (isObjectExpression v) (hasType v ''ObjectExpression'') \<and>
   answers (isAwaitExpression v) (hasType v ''AwaitExpression'') \<and>
   answers (isArrowFunctionExpression v) (hasType v ''ArrowFunctionExpression'') \<and>
   answers (isReturnStatement v) (hasType v ''ReturnStatement'') \<and>
   answers (isArrayExpression v) (hasType v ''ArrayExpression'') \<and>
   answers (hasThenProperty v)
     (hasType v ''MemberExpression'' \<and> hasType (field v ''property'') ''Identifier'' \<and>
      field (field v ''property'') ''name'' = JStr ''then'') \<and>
   answers (isAwaited v)
     (hasType v ''AwaitExpression'' \<or> hasType v ''ArrowFunctionExpression'' \<or>
      hasType v ''ReturnStatement'') \<and>
   isRenderFunction (JObj fs) names = Inr (\<exists>name\<in>set names. calleeNamed (JObj fs) name) \<and>
   answers (isPromiseResolved (JObj fs))
     (if hasType (field (JObj fs) ''parent'') ''CallExpression''
      then thenAccess (field (field (JObj fs) ''parent'') ''parent'')
      else thenAccess (field (JObj fs) ''parent''))"
proof -
  have render: "isRenderFunction (JObj fs) names
      = Inr (\<exists>name\<in>set names. calleeNamed (JObj fs) name)"
    unfolding isRenderFunction_def
    by (rule someM_answers) (rule renderTest_answers, simp_all)
  show ?thesis
    unfolding isCallExpression_def isIdentifier_def isMemberExpression_def isLiteral_def
      isImportSpecifier_def isImportNamespaceSpecifier_def isImportDefaultSpecifier_def
      isBlockStatement_def isVariableDeclarator_def isObjectPattern_def isProperty_def
      isJSXAttribute_def isObjectExpression_def isAwaitExpression_def
      isArrowFunctionExpression_def isReturnStatement_def isArrayExpression_def
    by (intro conjI guardedTypeIs_answers optionalTypeIs_answers hasThenProperty_answers
        isAwaited_answers render isPromiseResolved_answers)
qed

text \<open>
  Claim C10. The two ascents treat a node without parent link differently.
  \<open>findClosestCallNode\<close> tests the parent link before it looks at the node, so on a
  parentless node it returns \<open>null\<close> for every name, also when the node is itself a call
  of that name; \<open>findClosestCallExpressionNode\<close> looks at the node first, so a parentless
  call expression is returned as it is.
\<close>

theorem root_node_asymmetry:
  assumes "node \<noteq> JUndefined" and "node \<noteq> JNull"
    and "\<not> truthy (field node ''parent'')"
  shows "findClosestCallNode node name = Inr JNull \<and>
         (hasType node ''CallExpression'' \<longrightarrow>
            findClosestCallExpressionNode node = Inr node)"
proof (intro conjI impI)
  show "findClosestCallNode node name = Inr JNull"
    using assms by (subst findClosestCallNode.simps) (simp add: getp_field)
next
  assume call: "hasType node ''CallExpression''"
  from guardedTypeIs_answers[of node "''CallExpression''"] call
  obtain r where "isCallExpression node = Inr r" "truthy r"
    by (auto simp: isCallExpression_def elim: answersE)
  then show "findClosestCallExpressionNode node = Inr node"
    by (subst findClosestCallExpressionNode.simps) simp
qed

theorem root_node_asymmetry_witness:
  "renderCallAtRoot \<noteq> JUndefined \<and> renderCallAtRoot \<noteq> JNull \<and>
   \<not> truthy (field renderCallAtRoot ''parent'') \<and>
   hasType renderCallAtRoot ''CallExpression'' \<and>
   answers (isCallNamed renderCallAtRoot ''render'') True \<and>
   findClosestCallNode renderCallAtRoot ''render'' = Inr JNull \<and>
   findClosestCallExpressionNode renderCallAtRoot = Inr renderCallAtRoot"
proof -
  have pre: "renderCallAtRoot \<noteq> JUndefined" "renderCallAtRoot \<noteq> JNull"
    "\<not> truthy (field renderCallAtRoot ''parent'')"
    by (simp_all add: renderCallAtRoot_def field_def)
  have call: "hasType renderCallAtRoot ''CallExpression''"
    by (simp add: renderCallAtRoot_def hasType_def)
  have named: "answers (isCallNamed renderCallAtRoot ''render'') True"
    by (simp add: renderCallAtRoot_def isCallNamed_def isCallExpression_def
        isIdentifier_def guardedTypeIs_def jsAnd_def andThen_def strictEqStr_def
        answers_def)
  from root_node_asymmetry[OF pre, of "''render''"] pre call named
  show ?thesis by simp
qed

section \<open>Properties of the regular-expression engine\<close>

lemma lang_seq: "lang (seq r s) b e w = lang (RSeq r s) b e w"
  by (cases r) auto

lemma lang_alt: "lang (alt r s) b e w = lang (RAlt r s) b e w"
  by (cases r; cases s) auto

lemma starLang_Cons_iff:
  "starLang L b e (c # w) =
     (\<exists>u v. w = u @ v \<and> L b (e \<and> v = []) (c # u) \<and> starLang L False e v)"
proof
  assume "starLang L b e (c # w)"
  then show "\<exists>u v. w = u @ v \<and> L b (e \<and> v = []) (c # u) \<and> starLang L False e v"
  proof (cases rule: starLang.cases)
    case (starStep u v)
    then obtain u' where "u = c # u'" "w = u' @ v"
      by (cases u) auto
    with starStep show ?thesis by blast
  qed
next
  assume "\<exists>u v. w = u @ v \<and> L b (e \<and> v = []) (c # u) \<and> starLang L False e v"
  then obtain u v where "w = u @ v" "L b (e \<and> v = []) (c # u)" "starLang L False e v"
    by blast
  then show "starLang L b e (c # w)"
    using starStep[of "c # u" L b e v] by simp
qed

lemma ex_split_Cons:
  "(\<exists>u v. c # w = u @ v \<and> P u v) = (P [] (c # w) \<or> (\<exists>u v. w = u @ v \<and> P (c # u) v))"
proof
  assume "\<exists>u v. c # w = u @ v \<and> P u v"
  then obtain u v where *: "c # w = u @ v" "P u v"
    by blast
  show "P [] (c # w) \<or> (\<exists>u v. w = u @ v \<and> P (c # u) v)"
  proof (cases u)
    case Nil
    with * show ?thesis by simp
  next
    case (Cons d u')
    with * have "w = u' @ v" "P (c # u') v" by simp_all
    then show ?thesis by blast
  qed
next
  assume "P [] (c # w) \<or> (\<exists>u v. w = u @ v \<and> P (c # u) v)"
  then show "\<exists>u v. c # w = u @ v \<and> P u v"
  proof
    assume "P [] (c # w)"
    then have "c # w = [] @ (c # w) \<and> P [] (c # w)" by simp
    then show ?thesis by blast
  next
    assume "\<exists>u v. w = u @ v \<and> P (c # u) v"
    then obtain u v where "c # w = (c # u) @ v \<and> P (c # u) v" by auto
    then show ?thesis by blast
  qed
qed

lemma nullable_lang: "nullable b e r = lang r b e []"
  by (induction r arbitrary: b e) (auto simp: starNil)

lemma deriv_lang: "lang (deriv b c r) False e w = lang r b e (c # w)"
proof (induction r arbitrary: b e w)
  case (RSeq r s)
  have "lang (RSeq r s) b e (c # w) =
      ((lang r b False [] \<and> lang s b e (c # w)) \<or>
       (\<exists>u v. w = u @ v \<and> lang r b (e \<and> v = []) (c # u) \<and> lang s False e v))"
    by (simp only: lang.simps ex_split_Cons) simp
  then show ?case
    by (auto simp: lang_alt lang_seq RSeq nullable_lang)
next
  case (RStar r)
  show ?case
    by (simp add: lang_seq RStar starLang_Cons_iff)
qed (auto simp: lang_alt)

lemma matchesHere_lang:
  "matchesHere b r s = (\<exists>u v. s = u @ v \<and> lang r b (v = []) u)"
proof (induction s arbitrary: b r)
  case Nil
  then show ?case by (simp add: nullable_lang)
next
  case (Cons c cs)
  have "(\<exists>u v. c # cs = u @ v \<and> lang r b (v = []) u) =
      (lang r b False [] \<or> (\<exists>u v. cs = u @ v \<and> lang r b (v = []) (c # u)))"
    by (simp only: ex_split_Cons) simp
  then show ?case
    by (simp add: Cons nullable_lang deriv_lang)
qed

lemma searchFrom_lang:
  "searchFrom b r s = (\<exists>p u q. s = p @ u @ q \<and> lang r (b \<and> p = []) (q = []) u)"
proof (induction s arbitrary: b)
  case Nil
  then show ?case by (simp add: nullable_lang)
next
  case (Cons c cs)
  have "(\<exists>p w. c # cs = p @ w \<and> (\<exists>u q. w = u @ q \<and> lang r (b \<and> p = []) (q = []) u)) =
      ((\<exists>u q. c # cs = u @ q \<and> lang r b (q = []) u) \<or>
       (\<exists>p w. cs = p @ w \<and> (\<exists>u q. w = u @ q \<and> lang r False (q = []) u)))"
    by (simp only: ex_split_Cons) simp
  moreover have "(\<exists>p u q. x = p @ u @ q \<and> Q p u q) = (\<exists>p w. x = p @ w \<and> (\<exists>u q. w = u @ q \<and> Q p u q))"
    for x :: string and Q
    by blast
  ultimately show ?case
    by (simp add: Cons matchesHere_lang)
qed

lemma regexSearch_lang:
  "regexSearch r s = (\<exists>p u q. s = p @ u @ q \<and> lang r (p = []) (q = []) u)"
  by (simp add: regexSearch_def searchFrom_lang)

lemma lang_RSeq_RChr:
  "lang (RSeq r (RChr c)) b e w = (\<exists>u. w = u @ [c] \<and> lang r b False u)"
  by auto

lemma marker_compiles:
  "compilePattern ''testing-library'' =
     Inr (RSeq (RSeq (RSeq (RSeq (RSeq (RSeq (RSeq (RSeq (RSeq (RSeq (RSeq (RSeq (RSeq (RSeq
       (RChr CHR ''t'') (RChr CHR ''e'')) (RChr CHR ''s'')) (RChr CHR ''t''))
       (RChr CHR ''i'')) (RChr CHR ''n'')) (RChr CHR ''g'')) (RChr CHR ''-''))
       (RChr CHR ''l'')) (RChr CHR ''i'')) (RChr CHR ''b'')) (RChr CHR ''r''))
       (RChr CHR ''a'')) (RChr CHR ''r'')) (RChr CHR ''y''))"
  by (simp add: compilePattern_def closeFrame_def)

lemma marker_test:
  "regexTest ''testing-library'' s = Inr (\<exists>p q. s = p @ ''testing-library'' @ q)"
proof -
  have "lang (RSeq (RSeq (RSeq (RSeq (RSeq (RSeq (RSeq (RSeq (RSeq (RSeq (RSeq (RSeq (RSeq (RSeq
       (RChr CHR ''t'') (RChr CHR ''e'')) (RChr CHR ''s'')) (RChr CHR ''t''))
       (RChr CHR ''i'')) (RChr CHR ''n'')) (RChr CHR ''g'')) (RChr CHR ''-''))
       (RChr CHR ''l'')) (RChr CHR ''i'')) (RChr CHR ''b'')) (RChr CHR ''r''))
       (RChr CHR ''a'')) (RChr CHR ''r'')) (RChr CHR ''y'')) b e u = (u = ''testing-library'')"
    for b e u
    by (simp only: lang_RSeq_RChr lang.simps) auto
  then show ?thesis
    by (simp add: regexTest_def marker_compiles regexSearch_lang)
qed

lemma default_pattern_compiles:
  "compilePattern DEFAULT_FILENAME_PATTERN =
     Inr (RSeq (RSeq (RSeq (RSeq (RSeq (RSeq (RSeq (RSeq
       RBol (RStar RAny)) (RChr CHR ''.''))
       (RAlt
          (RSeq (RSeq (RSeq (RChr CHR ''t'') (RChr CHR ''e'')) (RChr CHR ''s'')) (RChr CHR ''t''))
          (RSeq (RSeq (RSeq (RChr CHR ''s'') (RChr CHR ''p'')) (RChr CHR ''e'')) (RChr CHR ''c''))))
       (RChr CHR ''.''))
       (RClass False ''jt''))
       (RChr CHR ''s''))
       (RAlt (RChr CHR ''x'') REmpty))
       REol)"
  by (simp add: compilePattern_def DEFAULT_FILENAME_PATTERN_def syntaxChars_def closeFrame_def)


















section \<open>Properties of the reporting decision\<close>




text \<open>
  Claim C1. \<open>canReportErrors\<close> returns true exactly when \<open>getIsTestingLibraryImported\<close>
  holds and \<open>getIsValidFilename\<close> returns true. \<open>getIsTestingLibraryImported\<close> holds
  unconditionally when no custom module is configured, which for the test
  \<open>!customModule\<close> of the source means that the setting is absent or the empty string;
  with a module name configured it holds exactly when one of the two variables holds a
  recorded node.
\<close>

theorem reporting_decision:
  "(canReportErrors ctx st = Inr True) =
     (getIsTestingLibraryImported ctx st \<and> getIsValidFilename ctx = Inr True) \<and>
   getIsTestingLibraryImported ctx st =
     (testing_library_module (settings ctx) = None \<or>
      testing_library_module (settings ctx) = Some [] \<or>
      truthy (importedTestingLibraryNode st) \<or> truthy (importedCustomModuleNode st))"
  by (cases "testing_library_module (settings ctx)")
    (auto simp: canReportErrors_def getIsTestingLibraryImported_def customModule_def
      settingValue_def)

section \<open>Properties of the import tracker\<close>

lemma ImportDeclaration_keeps:
  "truthy (importedTestingLibraryNode st) \<Longrightarrow>
     importedTestingLibraryNode (fst (ImportDeclaration ctx node st)) = importedTestingLibraryNode st"
  "truthy (importedCustomModuleNode st) \<Longrightarrow>
     importedCustomModuleNode (fst (ImportDeclaration ctx node st)) = importedCustomModuleNode st"
  by (auto simp: ImportDeclaration_def Let_def split: sum.splits)

lemma require_keeps:
  "truthy (importedTestingLibraryNode st) \<Longrightarrow>
     importedTestingLibraryNode (fst (CallExpression_Identifier_require ctx node st)) = importedTestingLibraryNode st"
  "truthy (importedCustomModuleNode st) \<Longrightarrow>
     importedCustomModuleNode (fst (CallExpression_Identifier_require ctx node st)) = importedCustomModuleNode st"
  by (auto simp: CallExpression_Identifier_require_def Let_def split: sum.splits prod.splits)

lemma detection_lookup:
  "map_of (detectionInstructions ctx) k = Some d \<Longrightarrow>
     d = ImportDeclaration ctx \<or> d = CallExpression_Identifier_require ctx"
  by (auto simp: detectionInstructions_def split: if_splits)

lemma callback_keeps:
  assumes "map_of (detectionInstructions ctx) k = Some d"
  shows "truthy (importedTestingLibraryNode st) \<Longrightarrow>
     importedTestingLibraryNode (fst (d node st)) = importedTestingLibraryNode st"
    and "truthy (importedCustomModuleNode st) \<Longrightarrow>
     importedCustomModuleNode (fst (d node st)) = importedCustomModuleNode st"
  using detection_lookup[OF assms] ImportDeclaration_keeps require_keeps by auto

lemma detectAll_keeps_library:
  "truthy (importedTestingLibraryNode st) \<Longrightarrow>
     importedTestingLibraryNode (fst (detectAll ctx visits st)) = importedTestingLibraryNode st"
proof (induction visits arbitrary: st)
  case Nil
  then show ?case by simp
next
  case (Cons visit visits)
  obtain k node where visit: "visit = (k, node)" by (cases visit)
  show ?case
  proof (cases "map_of (detectionInstructions ctx) k")
    case None
    then show ?thesis using Cons visit by simp
  next
    case (Some d)
    obtain st1 err where d: "d node st = (st1, err)" by (cases "d node st")
    have keep: "importedTestingLibraryNode st1 = importedTestingLibraryNode st"
      using callback_keeps(1)[OF Some Cons.prems, of node] d by simp
    show ?thesis
    proof (cases err)
      case None
      then show ?thesis using Cons visit Some d keep by simp
    next
      case (Some e)
      then show ?thesis using visit \<open>map_of (detectionInstructions ctx) k = Some d\<close> d keep by simp
    qed
  qed
qed

lemma detectAll_keeps_custom:
  "truthy (importedCustomModuleNode st) \<Longrightarrow>
     importedCustomModuleNode (fst (detectAll ctx visits st)) = importedCustomModuleNode st"
proof (induction visits arbitrary: st)
  case Nil
  then show ?case by simp
next
  case (Cons visit visits)
  obtain k node where visit: "visit = (k, node)" by (cases visit)
  show ?case
  proof (cases "map_of (detectionInstructions ctx) k")
    case None
    then show ?thesis using Cons visit by simp
  next
    case (Some d)
    obtain st1 err where d: "d node st = (st1, err)" by (cases "d node st")
    have keep: "importedCustomModuleNode st1 = importedCustomModuleNode st"
      using callback_keeps(2)[OF Some Cons.prems, of node] d by simp
    show ?thesis
    proof (cases err)
      case None
      then show ?thesis using Cons visit Some d keep by simp
    next
      case (Some e)
      then show ?thesis using visit \<open>map_of (detectionInstructions ctx) k = Some d\<close> d keep by simp
    qed
  qed
qed

lemma sourceValue_truthy: "sourceValue node = Inr v \<Longrightarrow> truthy node"
  by (cases node) (auto simp: sourceValue_def andThen_def)

lemma ImportDeclaration_records_library:
  assumes "\<not> truthy (importedTestingLibraryNode st)"
    and "sourceValue node = Inr (JStr src)"
    and "\<exists>p q. src = p @ ''testing-library'' @ q"
  shows "importedTestingLibraryNode (fst (ImportDeclaration ctx node st)) = node"
  using assms
  by (auto simp: ImportDeclaration_def Let_def andThen_def marker_test split: sum.splits)

lemma ImportDeclaration_records_custom:
  assumes "\<not> truthy (importedCustomModuleNode st)"
    and "sourceValue node = Inr (JStr src)"
    and "endsWith src (toString (customModule ctx))"
  shows "importedCustomModuleNode (fst (ImportDeclaration ctx node st)) = node"
  using assms
  by (auto simp: ImportDeclaration_def Let_def andThen_def marker_test split: sum.splits)

text \<open>
  Claim C3. First match wins. A variable that holds a recorded node keeps that node
  through every later visit of the traversal, whatever declarations and \<open>require\<close> calls
  are met. So once a declaration whose source contains \<open>testing-library\<close> has been
  recorded, the library variable holds that declaration for the rest of the file; the
  same holds for the custom module variable and a declaration whose source ends with
  the configured name. (The visits are run through the detection callbacks;
  \<open>traverse_keeps\<close> at the end carries the result over to the merged callbacks of any
  rule.)
\<close>

theorem first_match_wins:
  "(truthy (importedTestingLibraryNode st) \<longrightarrow>
      importedTestingLibraryNode (fst (detectAll ctx visits st)) = importedTestingLibraryNode st) \<and>
   (truthy (importedCustomModuleNode st) \<longrightarrow>
      importedCustomModuleNode (fst (detectAll ctx visits st)) = importedCustomModuleNode st) \<and>
   (\<not> truthy (importedTestingLibraryNode st) \<and> sourceValue node = Inr (JStr src) \<and>
    (\<exists>p q. src = p @ ''testing-library'' @ q) \<longrightarrow>
      importedTestingLibraryNode (fst (ImportDeclaration ctx node st)) = node \<and>
      importedTestingLibraryNode (fst (detectAll ctx visits (fst (ImportDeclaration ctx node st)))) = node) \<and>
   (\<not> truthy (importedCustomModuleNode st) \<and> sourceValue node = Inr (JStr src) \<and>
    endsWith src (toString (customModule ctx)) \<longrightarrow>
      importedCustomModuleNode (fst (ImportDeclaration ctx node st)) = node \<and>
      importedCustomModuleNode (fst (detectAll ctx visits (fst (ImportDeclaration ctx node st)))) = node)"
proof (intro conjI impI)
  show "importedTestingLibraryNode (fst (detectAll ctx visits st)) = importedTestingLibraryNode st"
    if "truthy (importedTestingLibraryNode st)"
    using that by (rule detectAll_keeps_library)
  show "importedCustomModuleNode (fst (detectAll ctx visits st)) = importedCustomModuleNode st"
    if "truthy (importedCustomModuleNode st)"
    using that by (rule detectAll_keeps_custom)
next
  assume a: "\<not> truthy (importedTestingLibraryNode st) \<and> sourceValue node = Inr (JStr src) \<and>
    (\<exists>p q. src = p @ ''testing-library'' @ q)"
  then show rec: "importedTestingLibraryNode (fst (ImportDeclaration ctx node st)) = node"
    by (simp add: ImportDeclaration_records_library)
  from a have "truthy node" by (auto dest: sourceValue_truthy)
  with rec show "importedTestingLibraryNode
      (fst (detectAll ctx visits (fst (ImportDeclaration ctx node st)))) = node"
    by (simp add: detectAll_keeps_library)
next
  assume a: "\<not> truthy (importedCustomModuleNode st) \<and> sourceValue node = Inr (JStr src) \<and>
    endsWith src (toString (customModule ctx))"
  then show rec: "importedCustomModuleNode (fst (ImportDeclaration ctx node st)) = node"
    by (simp add: ImportDeclaration_records_custom)
  from a have "truthy node" by (auto dest: sourceValue_truthy)
  with rec show "importedCustomModuleNode
      (fst (detectAll ctx visits (fst (ImportDeclaration ctx node st)))) = node"
    by (simp add: detectAll_keeps_custom)
qed


lemma sample_sources:
  "sourceValue reactImport = Inr (JStr ''@testing-library/react'')"
  "sourceValue utilsImport = Inr (JStr ''../test-utils'')"
  by (simp_all add: sourceValue_def andThen_def reactImport_def utilsImport_def
      importDeclarationNode_def literalNode_def)

lemmas sample_node_defs =
  identifierNode_def literalNode_def importSpecifierNode_def importDeclarationNode_def
  requireCallNode_def requireIdentifier_def

lemmas detection_eval =
  detectionInstructions_def requireSelector_def ImportDeclaration_def
  CallExpression_Identifier_require_def initialDetection_def sourceValue_def andThen_def
  regexTest_def marker_compiles regexSearch_def customModule_def settingValue_def
  endsWith_def Let_def arraySome_def markerArgument_def customModuleArgument_def
  jsAnd_def isLiteral_def guardedTypeIs_def strictEqStr_def typeofIsString_def

lemma laterVisits_alone:
  "importedTestingLibraryNode (fst (detectAll customContext laterVisits initialDetection)) = domImport"
  "importedCustomModuleNode (fst (detectAll customContext laterVisits initialDetection)) = otherUtilsImport"
  by (simp_all add: laterVisits_def domImport_def otherUtilsImport_def customContext_def
      sample_node_defs detection_eval)

theorem first_match_wins_witness:
  "importedTestingLibraryNode (fst (detectAll customContext laterVisits bothRecorded)) = reactImport \<and>
   importedCustomModuleNode (fst (detectAll customContext laterVisits bothRecorded)) = utilsImport \<and>
   importedTestingLibraryNode (fst (ImportDeclaration customContext reactImport initialDetection))
     = reactImport \<and>
   importedTestingLibraryNode
     (fst (detectAll customContext laterVisits
        (fst (ImportDeclaration customContext reactImport initialDetection)))) = reactImport \<and>
   importedCustomModuleNode (fst (ImportDeclaration customContext utilsImport initialDetection))
     = utilsImport \<and>
   importedCustomModuleNode
     (fst (detectAll customContext laterVisits
        (fst (ImportDeclaration customContext utilsImport initialDetection)))) = utilsImport \<and>
   importedTestingLibraryNode (fst (detectAll customContext laterVisits initialDetection))
     = domImport \<and>
   importedCustomModuleNode (fst (detectAll customContext laterVisits initialDetection))
     = otherUtilsImport \<and>
   domImport \<noteq> reactImport \<and> otherUtilsImport \<noteq> utilsImport"
proof -
  have recorded: "truthy (importedTestingLibraryNode bothRecorded)"
    "truthy (importedCustomModuleNode bothRecorded)"
    by (simp_all add: bothRecorded_def reactImport_def utilsImport_def importDeclarationNode_def)
  have empty: "\<not> truthy (importedTestingLibraryNode initialDetection)"
    "\<not> truthy (importedCustomModuleNode initialDetection)"
    by (simp_all add: initialDetection_def)
  have marker: "\<exists>p q. ''@testing-library/react'' = p @ ''testing-library'' @ q"
  proof -
    have "''@testing-library/react'' = ''@'' @ ''testing-library'' @ ''/react''" by simp
    then show ?thesis by blast
  qed
  have suffix: "endsWith ''../test-utils'' (toString (customModule customContext))"
    by (simp add: endsWith_def customContext_def customModule_def settingValue_def)
  have kept: "importedTestingLibraryNode (fst (detectAll customContext laterVisits bothRecorded))
        = reactImport"
      "importedCustomModuleNode (fst (detectAll customContext laterVisits bothRecorded))
        = utilsImport"
    using first_match_wins[of bothRecorded customContext laterVisits] recorded
    by (simp_all add: bothRecorded_def)
  have lib: "importedTestingLibraryNode
        (fst (ImportDeclaration customContext reactImport initialDetection)) = reactImport"
      "importedTestingLibraryNode
        (fst (detectAll customContext laterVisits
           (fst (ImportDeclaration customContext reactImport initialDetection)))) = reactImport"
    using first_match_wins[of initialDetection customContext laterVisits reactImport
        "''@testing-library/react''"] empty marker sample_sources
    by simp_all
  have cus: "importedCustomModuleNode
        (fst (ImportDeclaration customContext utilsImport initialDetection)) = utilsImport"
      "importedCustomModuleNode
        (fst (detectAll customContext laterVisits
           (fst (ImportDeclaration customContext utilsImport initialDetection)))) = utilsImport"
    using first_match_wins[of initialDetection customContext laterVisits utilsImport
        "''../test-utils''"] empty suffix sample_sources
    by simp_all
  have different: "domImport \<noteq> reactImport" "otherUtilsImport \<noteq> utilsImport"
    by (simp_all add: domImport_def reactImport_def otherUtilsImport_def utilsImport_def
        importDeclarationNode_def literalNode_def)
  show ?thesis
    using kept lib cus laterVisits_alone different by simp
qed

text \<open>
  Claim C4 says that the custom module variable stays empty when no custom module is
  configured. The callbacks do not test whether the setting is present: they call
  \<open>endsWith(customModule)\<close>, and \<open>endsWith\<close> turns an absent setting into the text
  \<open>undefined\<close>. With no custom module configured, the declaration
  \<open>import { isUndefined } from './is-undefined'\<close> and the call
  \<open>require('./is-undefined')\<close> are both recorded as the custom module import.
\<close>

theorem custom_slot_recorded_without_setting:
  "testing_library_module (settings plainContext) = None \<and>
   importedCustomModuleNode initialDetection = JNull \<and>
   importedCustomModuleNode (fst (ImportDeclaration plainContext undefinedImport initialDetection))
     = undefinedImport \<and>
   importedCustomModuleNode
     (fst (CallExpression_Identifier_require plainContext
        (requireIdentifier (identifierNode ''check'') ''./is-undefined'') initialDetection))
     = requireCallNode (identifierNode ''check'') ''./is-undefined''"
  by (simp add: plainContext_def undefinedImport_def sample_node_defs detection_eval)

section \<open>Properties of the specifier resolver\<close>

lemma findM_answers:
  assumes "\<And>x. x \<in> set xs \<Longrightarrow> answers (p x) (q x)"
  shows "findM p xs = Inr (firstOr q xs JUndefined)"
  using assms
proof (induction xs)
  case Nil
  then show ?case by (simp add: firstOr_def)
next
  case (Cons x xs)
  from Cons.prems[of x] obtain r where r: "p x = Inr r" "truthy r = q x"
    by (auto elim: answersE)
  have "findM p xs = Inr (firstOr q xs JUndefined)"
    using Cons by simp
  with r show ?case by (simp add: firstOr_def)
qed

lemma firstOr_truthy:
  assumes "\<And>x. q x \<Longrightarrow> truthy x"
  shows "truthy (firstOr q xs JUndefined) = (\<exists>x\<in>set xs. q x)"
  using assms by (induction xs) (auto simp: firstOr_def)

lemma namedSpecifierTest_answers:
  assumes "hasType n ''ImportSpecifier'' \<longrightarrow> importedPresent n"
  shows "answers (namedSpecifierTest name n) (namedSpecifier name n)"
proof -
  have a: "answers (isImportSpecifier n) (hasType n ''ImportSpecifier'')"
    by (simp add: isImportSpecifier_def guardedTypeIs_answers)
  have b: "answers
      (andThen (getp n ''imported'') (\<lambda>i.
         andThen (getp i ''name'') (\<lambda>nm. Inr (JBool (strictEqStr nm name)))))
      (field (field n ''imported'') ''name'' = JStr name)"
    if h: "hasType n ''ImportSpecifier''"
  proof -
    from h assms have p: "field n ''imported'' \<noteq> JUndefined" "field n ''imported'' \<noteq> JNull"
      by (simp_all add: importedPresent_def)
    from hasType_not_nullish[OF h] have "getp n ''imported'' = Inr (field n ''imported'')"
      by (simp add: getp_field)
    then show ?thesis
      using nameIs_answers[OF p, of name] by (simp add: andThen_def)
  qed
  show ?thesis
    unfolding namedSpecifierTest_def namedSpecifier_def
    by (rule jsAnd_answers[OF a b])
qed

lemma specifierOfDeclaration_eq:
  assumes "node \<noteq> JUndefined" "node \<noteq> JNull"
    and "field node ''specifiers'' = JArr specifiers"
    and "\<forall>n\<in>set specifiers. hasType n ''ImportSpecifier'' \<longrightarrow> importedPresent n"
  shows "specifierOfDeclaration node name =
     Inr (firstOr (namedSpecifier name) specifiers
            (firstOr namespaceSpecifier specifiers JUndefined))"
proof -
  have g: "getp node ''specifiers'' = Inr (JArr specifiers)"
    using assms by (simp add: getp_field)
  have named: "findM (namedSpecifierTest name) specifiers
      = Inr (firstOr (namedSpecifier name) specifiers JUndefined)"
    using assms(4) by (intro findM_answers namedSpecifierTest_answers) simp
  have ns: "findM isImportNamespaceSpecifier specifiers
      = Inr (firstOr namespaceSpecifier specifiers JUndefined)"
    by (rule findM_answers)
      (simp add: isImportNamespaceSpecifier_def namespaceSpecifier_def optionalTypeIs_answers)
  have t: "truthy (firstOr (namedSpecifier name) specifiers JUndefined)
      = (\<exists>x\<in>set specifiers. namedSpecifier name x)"
    by (rule firstOr_truthy) (auto simp: namedSpecifier_def hasType_def split: jsv.splits)
  show ?thesis
  proof (cases "\<exists>x\<in>set specifiers. namedSpecifier name x")
    case True
    then obtain x where "find (namedSpecifier name) specifiers = Some x"
      by (cases "find (namedSpecifier name) specifiers") (auto simp: find_None_iff)
    then show ?thesis
      using True t named by (simp add: specifierOfDeclaration_def g andThen_def arrayFind_def firstOr_def)
  next
    case False
    then have "find (namedSpecifier name) specifiers = None"
      by (simp add: find_None_iff)
    then show ?thesis
      using False t named ns
      by (simp add: specifierOfDeclaration_def g andThen_def arrayFind_def firstOr_def)
  qed
qed

text \<open>
  Claim C6. When the selected node is a static declaration whose specifiers are well
  formed, \<open>findImportedUtilSpecifier\<close> returns the first named import specifier whose
  imported name is the symbol asked for, the whole specifier with its local alias; if
  there is none it returns the first namespace specifier of the declaration; and if
  there is none either it returns \<open>undefined\<close>.
\<close>

theorem static_declaration_resolution:
  assumes "nullishOr (importedCustomModuleNode st) (importedTestingLibraryNode st) = node"
    and "hasType node ''ImportDeclaration''"
    and "field node ''specifiers'' = JArr specifiers"
    and "\<forall>n\<in>set specifiers. hasType n ''ImportSpecifier'' \<longrightarrow> importedPresent n"
  shows "findImportedUtilSpecifier st name =
     Inr (firstOr (namedSpecifier name) specifiers
            (firstOr namespaceSpecifier specifiers JUndefined))"
proof -
  from assms(2) have obj: "node \<noteq> JUndefined" "node \<noteq> JNull" "truthy node"
    by (auto simp: hasType_def split: jsv.splits)
  from optionalTypeIs_answers[of node "''ImportDeclaration''"] assms(2)
  obtain d where d: "isImportDeclaration node = Inr d" "truthy d"
    by (auto simp: isImportDeclaration_def elim: answersE)
  show ?thesis
    using assms(1) obj d specifierOfDeclaration_eq[OF obj(1,2) assms(3,4), of name]
    by (simp add: findImportedUtilSpecifier_def specifierOfNode_def andThen_def)
qed

lemmas specifier_eval =
  sample_node_defs hasType_def field_def namedSpecifier_def namespaceSpecifier_def
  importedPresent_def firstOr_def nullishOr_def recordedLibrary_def
  namespaceSpecifierNode_def defaultSpecifierNode_def

theorem static_declaration_resolution_witness:
  "findImportedUtilSpecifier (recordedLibrary aliasedImport) ''render''
     = Inr (importSpecifierNode ''render'' ''doRender'') \<and>
   findImportedUtilSpecifier (recordedLibrary namespaceImport) ''render''
     = Inr (namespaceSpecifierNode ''rtl'') \<and>
   findImportedUtilSpecifier (recordedLibrary aliasedImport) ''fireEvent'' = Inr JUndefined"
proof -
  have a: "findImportedUtilSpecifier (recordedLibrary aliasedImport) name =
     Inr (firstOr (namedSpecifier name)
            [defaultSpecifierNode ''rtl'', importSpecifierNode ''screen'' ''screen'',
             importSpecifierNode ''render'' ''doRender'']
            (firstOr namespaceSpecifier
               [defaultSpecifierNode ''rtl'', importSpecifierNode ''screen'' ''screen'',
                importSpecifierNode ''render'' ''doRender''] JUndefined))" for name
    by (rule static_declaration_resolution[of _ aliasedImport])
      (simp_all add: aliasedImport_def specifier_eval)
  have b: "findImportedUtilSpecifier (recordedLibrary namespaceImport) name =
     Inr (firstOr (namedSpecifier name) [namespaceSpecifierNode ''rtl'']
            (firstOr namespaceSpecifier [namespaceSpecifierNode ''rtl''] JUndefined))" for name
    by (rule static_declaration_resolution[of _ namespaceImport])
      (simp_all add: namespaceImport_def specifier_eval)
  show ?thesis
    using a[of "''render''"] a[of "''fireEvent''"] b[of "''render''"]
    by (simp add: specifier_eval)
qed

lemma getp_array_is_node:
  "getp v f = Inr (JArr xs) \<Longrightarrow> isNode v"
  by (cases v) (auto simp: isNode_def)

lemma sourceValue_is_node: "sourceValue node = Inr v \<Longrightarrow> isNode node"
  by (cases node) (auto simp: sourceValue_def andThen_def isNode_def)

lemma ImportDeclaration_slots:
  assumes "emptyOrNode (importedTestingLibraryNode st)" "emptyOrNode (importedCustomModuleNode st)"
  shows "emptyOrNode (importedTestingLibraryNode (fst (ImportDeclaration ctx node st))) \<and>
         emptyOrNode (importedCustomModuleNode (fst (ImportDeclaration ctx node st)))"
proof (cases "sourceValue node")
  case (Inl e)
  then show ?thesis using assms
    by (auto simp: ImportDeclaration_def Let_def andThen_def split: sum.splits)
next
  case (Inr v)
  then have "emptyOrNode node"
    by (auto simp: emptyOrNode_def dest: sourceValue_is_node)
  then show ?thesis using assms Inr
    by (auto simp: ImportDeclaration_def Let_def andThen_def split: sum.splits)
qed

lemma arraySome_is_array: "arraySome a p = Inr b \<Longrightarrow> \<exists>xs. a = JArr xs"
  by (cases a) (auto simp: arraySome_def)

lemma require_slots:
  assumes "emptyOrNode (importedTestingLibraryNode st)" "emptyOrNode (importedCustomModuleNode st)"
  shows "emptyOrNode (importedTestingLibraryNode (fst (CallExpression_Identifier_require ctx node st))) \<and>
         emptyOrNode (importedCustomModuleNode (fst (CallExpression_Identifier_require ctx node st)))"
proof (cases "andThen (getp node ''parent'') (\<lambda>callExpression.
             andThen (getp callExpression ''arguments'') (\<lambda>args.
               Inr (callExpression, args)))")
  case (Inl e)
  then show ?thesis using assms
    by (simp add: CallExpression_Identifier_require_def)
next
  case (Inr p)
  obtain callExpression args where p: "p = (callExpression, args)" by (cases p)
  from Inr p have g: "getp callExpression ''arguments'' = Inr args"
    by (auto simp: andThen_def split: sum.splits)
  have node: "emptyOrNode callExpression" if "arraySome args q = Inr b" for q b
    using arraySome_is_array[OF that] g
    by (auto simp: emptyOrNode_def dest: getp_array_is_node)
  show ?thesis
    using assms Inr p node
    by (auto simp: CallExpression_Identifier_require_def Let_def split: sum.splits)
qed

lemma callback_slots:
  assumes "map_of (detectionInstructions ctx) k = Some d"
    and "emptyOrNode (importedTestingLibraryNode st)" "emptyOrNode (importedCustomModuleNode st)"
  shows "emptyOrNode (importedTestingLibraryNode (fst (d node st))) \<and>
         emptyOrNode (importedCustomModuleNode (fst (d node st)))"
  using detection_lookup[OF assms(1)] ImportDeclaration_slots[OF assms(2,3)]
    require_slots[OF assms(2,3)]
  by auto

lemma detectAll_slots:
  "emptyOrNode (importedTestingLibraryNode st) \<Longrightarrow> emptyOrNode (importedCustomModuleNode st) \<Longrightarrow>
   emptyOrNode (importedTestingLibraryNode (fst (detectAll ctx visits st))) \<and>
   emptyOrNode (importedCustomModuleNode (fst (detectAll ctx visits st)))"
proof (induction visits arbitrary: st)
  case Nil
  then show ?case by simp
next
  case (Cons visit visits)
  obtain k node where visit: "visit = (k, node)" by (cases visit)
  show ?case
  proof (cases "map_of (detectionInstructions ctx) k")
    case None
    then show ?thesis using Cons visit by simp
  next
    case (Some d)
    obtain st1 err where d: "d node st = (st1, err)" by (cases "d node st")
    have ok: "emptyOrNode (importedTestingLibraryNode st1)"
      "emptyOrNode (importedCustomModuleNode st1)"
      using callback_slots[OF Some Cons.prems, of node] d by simp_all
    show ?thesis
    proof (cases err)
      case None
      then show ?thesis using Cons.IH[OF ok] visit Some d by simp
    next
      case (Some e)
      then show ?thesis
        using visit \<open>map_of (detectionInstructions ctx) k = Some d\<close> d ok by simp
    qed
  qed
qed

lemma reachable_slots:
  "emptyOrNode (importedTestingLibraryNode (fst (detectAll ctx visits initialDetection))) \<and>
   emptyOrNode (importedCustomModuleNode (fst (detectAll ctx visits initialDetection)))"
  by (rule detectAll_slots) (simp_all add: initialDetection_def emptyOrNode_def)

lemma emptyOrNode_cases [consumes 1, case_names Empty Node]:
  "emptyOrNode v \<Longrightarrow> (v = JNull \<Longrightarrow> P) \<Longrightarrow> (\<And>fs. v = JObj fs \<Longrightarrow> P) \<Longrightarrow> P"
  by (cases v) (auto simp: emptyOrNode_def isNode_def)

text \<open>
  Claim C7. In every state that the detection callbacks can reach from the empty one,
  and for every symbol name, \<open>findImportedUtilSpecifier\<close> inspects the node recorded for
  the custom module when there is one, otherwise the node recorded for Testing Library,
  and returns \<open>null\<close> at once when both variables are empty.
\<close>

theorem import_node_selection:
  "findImportedUtilSpecifier (fst (detectAll ctx visits initialDetection)) name =
     (if importedCustomModuleNode (fst (detectAll ctx visits initialDetection)) \<noteq> JNull
      then specifierOfNode
             (importedCustomModuleNode (fst (detectAll ctx visits initialDetection))) name
      else if importedTestingLibraryNode (fst (detectAll ctx visits initialDetection)) \<noteq> JNull
      then specifierOfNode
             (importedTestingLibraryNode (fst (detectAll ctx visits initialDetection))) name
      else Inr JNull)"
proof -
  define st where "st = fst (detectAll ctx visits initialDetection)"
  have ok: "emptyOrNode (importedTestingLibraryNode st)" "emptyOrNode (importedCustomModuleNode st)"
    using reachable_slots[of ctx visits] by (simp_all add: st_def)
  have "findImportedUtilSpecifier st name =
     (if importedCustomModuleNode st \<noteq> JNull
      then specifierOfNode (importedCustomModuleNode st) name
      else if importedTestingLibraryNode st \<noteq> JNull
      then specifierOfNode (importedTestingLibraryNode st) name
      else Inr JNull)"
    using ok(2)
  proof (cases rule: emptyOrNode_cases)
    case Empty
    note custom = this
    from ok(1) show ?thesis
    proof (cases rule: emptyOrNode_cases)
      case Empty
      with custom show ?thesis
        by (simp add: findImportedUtilSpecifier_def nullishOr_def)
    next
      case (Node fs)
      with custom show ?thesis
        by (simp add: findImportedUtilSpecifier_def nullishOr_def)
    qed
  next
    case (Node fs)
    then show ?thesis
      by (simp add: findImportedUtilSpecifier_def nullishOr_def)
  qed
  then show ?thesis by (simp add: st_def)
qed

lemma libraryThenCustom_state:
  "fst (detectAll customContext libraryThenCustom initialDetection) =
     \<lparr>importedTestingLibraryNode = aliasedImport, importedCustomModuleNode = utilsImport\<rparr>"
  by (simp add: libraryThenCustom_def aliasedImport_def utilsImport_def customContext_def
      sample_node_defs defaultSpecifierNode_def detection_eval)

lemmas resolver_eval =
  findImportedUtilSpecifier_def specifierOfNode_def specifierOfDeclaration_def
  specifierOfRequire_def isImportDeclaration_def optionalTypeIs_def nullishOr_def
  arrayFind_def namedSpecifierTest_def propertyKeyTest_def isImportSpecifier_def
  isImportNamespaceSpecifier_def isProperty_def isIdentifier_def guardedTypeIs_def
  jsAnd_def andThen_def strictEqStr_def

theorem import_node_selection_witness:
  "importedCustomModuleNode (fst (detectAll customContext libraryThenCustom initialDetection))
     = utilsImport \<and>
   importedTestingLibraryNode (fst (detectAll customContext libraryThenCustom initialDetection))
     = aliasedImport \<and>
   findImportedUtilSpecifier (fst (detectAll customContext libraryThenCustom initialDetection))
     ''render'' = Inr (importSpecifierNode ''render'' ''render'') \<and>
   specifierOfNode aliasedImport ''render'' = Inr (importSpecifierNode ''render'' ''doRender'') \<and>
   findImportedUtilSpecifier
     (fst (detectAll customContext [(''ImportDeclaration'', aliasedImport)] initialDetection))
     ''render'' = Inr (importSpecifierNode ''render'' ''doRender'') \<and>
   findImportedUtilSpecifier (fst (detectAll customContext [] initialDetection)) ''render''
     = Inr JNull"
proof -
  have one: "fst (detectAll customContext [(''ImportDeclaration'', aliasedImport)] initialDetection)
      = \<lparr>importedTestingLibraryNode = aliasedImport, importedCustomModuleNode = JNull\<rparr>"
    by (simp add: aliasedImport_def customContext_def sample_node_defs
        defaultSpecifierNode_def detection_eval)
  have custom: "specifierOfNode utilsImport ''render'' = Inr (importSpecifierNode ''render'' ''render'')"
    by (simp add: utilsImport_def sample_node_defs resolver_eval)
  have library: "specifierOfNode aliasedImport ''render''
      = Inr (importSpecifierNode ''render'' ''doRender'')"
    by (simp add: aliasedImport_def sample_node_defs defaultSpecifierNode_def resolver_eval)
  have nodes: "utilsImport \<noteq> JNull" "aliasedImport \<noteq> JNull"
    by (simp_all add: utilsImport_def aliasedImport_def importDeclarationNode_def)
  have both: "findImportedUtilSpecifier
      (fst (detectAll customContext libraryThenCustom initialDetection)) ''render''
      = Inr (importSpecifierNode ''render'' ''render'')"
    using import_node_selection[of customContext libraryThenCustom "''render''"] custom nodes
    by (simp add: libraryThenCustom_state)
  have only: "findImportedUtilSpecifier
      (fst (detectAll customContext [(''ImportDeclaration'', aliasedImport)] initialDetection))
      ''render'' = Inr (importSpecifierNode ''render'' ''doRender'')"
    using import_node_selection[of customContext "[(''ImportDeclaration'', aliasedImport)]"
        "''render''"] library nodes
    by (simp only: one detection.simps) simp
  have none: "findImportedUtilSpecifier (fst (detectAll customContext [] initialDetection))
      ''render'' = Inr JNull"
    using import_node_selection[of customContext "[]" "''render''"]
    by (simp add: initialDetection_def)
  show ?thesis
    using both only none library by (simp add: libraryThenCustom_state)
qed

lemma destructuredRequire_state:
  "fst (detectAll plainContext destructuredRequire initialDetection) =
     \<lparr>importedTestingLibraryNode =
        requireCallNode
          (objectPatternNode [propertyNode ''screen'' ''screen'', propertyNode ''render'' ''r''])
          ''@testing-library/react'',
      importedCustomModuleNode = JNull\<rparr>"
  by (simp add: destructuredRequire_def plainContext_def sample_node_defs
      objectPatternNode_def propertyNode_def detection_eval)

lemma propertyKeyTest_answers:
  "answers (propertyKeyTest name n) (keyNamed name n)"
proof -
  have a: "answers (isProperty n) (hasType n ''Property'')"
    by (simp add: isProperty_def guardedTypeIs_answers)
  have b: "answers
      (jsAnd (andThen (getp n ''key'') isIdentifier)
         (andThen (getp n ''key'') (\<lambda>k.
            andThen (getp k ''name'') (\<lambda>nm. Inr (JBool (strictEqStr nm name))))))
      (hasType (field n ''key'') ''Identifier'' \<and> field (field n ''key'') ''name'' = JStr name)"
    if "hasType n ''Property''"
    using hasType_not_nullish[OF that] by (simp add: identifierNamed_answers)
  have assoc: "jsAnd (jsAnd x y) z = jsAnd x (jsAnd y z)" for x y z
    by (cases x; cases y) (auto simp: jsAnd_def)
  show ?thesis
    unfolding propertyKeyTest_def keyNamed_def assoc
    by (rule jsAnd_answers[OF a b])
qed

text \<open>The branch of a \<open>require\<close> call whose binding target is a destructuring pattern:
  the key of the first property whose key is the symbol asked for, and a \<open>TypeError\<close>
  when no property has that key.\<close>

lemma destructured_require_resolution:
  assumes "getp node ''parent'' = Inr declarator"
    and "getp declarator ''id'' = Inr target"
    and "\<not> hasType target ''Identifier''"
    and "getp target ''properties'' = Inr (JArr properties)"
  shows "specifierOfRequire node name =
     (case find (keyNamed name) properties of
        Some property \<Rightarrow> Inr (field property ''key'')
      | None \<Rightarrow> Inl TypeError)"
proof -
  from guardedTypeIs_answers[of target "''Identifier''"] assms(3)
  obtain c where c: "isIdentifier target = Inr c" "\<not> truthy c"
    by (auto simp: isIdentifier_def elim: answersE)
  have f: "findM (propertyKeyTest name) properties
      = Inr (firstOr (keyNamed name) properties JUndefined)"
    by (rule findM_answers) (rule propertyKeyTest_answers)
  have "specifierOfRequire node name
      = getp (firstOr (keyNamed name) properties JUndefined) ''key''"
    using assms c f by (simp add: specifierOfRequire_def andThen_def arrayFind_def)
  also have "\<dots> = (case find (keyNamed name) properties of
        Some property \<Rightarrow> Inr (field property ''key'')
      | None \<Rightarrow> Inl TypeError)"
  proof (cases "find (keyNamed name) properties")
    case None
    then show ?thesis by (simp add: firstOr_def)
  next
    case (Some property)
    then have "keyNamed name property"
      by (auto simp: find_Some_iff)
    then have "property \<noteq> JUndefined" "property \<noteq> JNull"
      by (auto simp: keyNamed_def dest: hasType_not_nullish)
    then show ?thesis using Some by (simp add: firstOr_def getp_field)
  qed
  finally show ?thesis .
qed

text \<open>
  Claim C5 says that a destructured \<open>require\<close> resolves a symbol to the key identifier of
  the matching property, and to an absent result, without a fault, when no property
  matches. The first half holds: in
  \<open>const { screen, render: r } = require('@testing-library/react')\<close> the symbols \<open>render\<close>
  and \<open>screen\<close> resolve to the key identifiers \<open>render\<close> and \<open>screen\<close>. The second half
  fails: for \<open>fireEvent\<close> the search finds no property, and the source reads \<open>.key\<close> of the
  \<open>undefined\<close> that \<open>find\<close> returned, which raises a \<open>TypeError\<close>.
\<close>

theorem destructured_require_without_match_raises:
  "findImportedUtilSpecifier (fst (detectAll plainContext destructuredRequire initialDetection))
     ''render'' = Inr (identifierNode ''render'') \<and>
   findImportedUtilSpecifier (fst (detectAll plainContext destructuredRequire initialDetection))
     ''screen'' = Inr (identifierNode ''screen'') \<and>
   findImportedUtilSpecifier (fst (detectAll plainContext destructuredRequire initialDetection))
     ''fireEvent'' = Inl TypeError"
  by (simp add: destructuredRequire_state sample_node_defs objectPatternNode_def
      propertyNode_def resolver_eval)

section \<open>Properties of the visitor merger\<close>

lemma keySet_set: "set (keySet seen ks) = set ks - set seen"
  by (induction seen ks rule: keySet.induct) auto

lemma allKeys_set:
  "set (allKeys ctx rules) = set (map fst (detectionInstructions ctx)) \<union> set (map fst rules)"
  by (simp add: allKeys_def keySet_set)

lemma map_of_tabulate:
  "map_of (map (\<lambda>k. (k, f k)) ks) k = (if k \<in> set ks then Some (f k) else None)"
  by (induction ks) auto

lemma enhancedListener_cases:
  "enhancedListener ctx rules k node (st, rs) =
     (let st1 = fst (runDetection ctx k node st) in
      case snd (runDetection ctx k node st) of
        Some e \<Rightarrow> (Inl e, st1, rs)
      | None \<Rightarrow>
          (case canReportErrors ctx st1 of
             Inl e \<Rightarrow> (Inl e, st1, rs)
           | Inr ok \<Rightarrow>
               (case (if ok then map_of rules k else None) of
                  Some r \<Rightarrow> (fst (r node st1 rs), st1, snd (r node st1 rs))
                | None \<Rightarrow> (Inr JUndefined, st1, rs))))"
  by (cases "runDetection ctx k node st")
    (auto simp: enhancedListener_def Let_def split: option.splits sum.splits prod.splits)

text \<open>
  Claim C2. The merged table has exactly the keys of the detection table and of the
  rule's table, and under each of them the merged callback. The detection table holds
  the import callback under \<open>ImportDeclaration\<close> and the require callback under the
  require selector. A merged callback first runs the detection callback that the
  detection table holds under its key, whether reporting is allowed or not; for a key
  under which the detection table holds nothing, and which is not the name of a property
  that every object inherits, no detection step is made and the detection variables stay
  as they are. The detection variables the merged callback leaves are those the detection
  callback left. Then it asks \<open>canReportErrors\<close> about these new variables, so that what
  the detection callback has just recorded counts in the same visit. If the answer is
  true and the rule has a callback for the key, that callback runs (on the new
  variables) and its result is returned; otherwise the rule's state is untouched and
  \<open>undefined\<close> is returned. A fault of the detection callback or of \<open>canReportErrors\<close>
  ends the visit.
\<close>

theorem merged_listener:
  "set (map fst (detectTestingLibraryUtils ctx rules)) =
     set (map fst (detectionInstructions ctx)) \<union> set (map fst rules) \<and>
   (k \<in> set (map fst (detectionInstructions ctx)) \<union> set (map fst rules) \<longrightarrow>
      map_of (detectTestingLibraryUtils ctx rules) k = Some (enhancedListener ctx rules k)) \<and>
   map_of (detectionInstructions ctx) ''ImportDeclaration'' = Some (ImportDeclaration ctx) \<and>
   map_of (detectionInstructions ctx) requireSelector =
     Some (CallExpression_Identifier_require ctx) \<and>
   runDetection ctx ''ImportDeclaration'' node st = ImportDeclaration ctx node st \<and>
   runDetection ctx requireSelector node st = CallExpression_Identifier_require ctx node st \<and>
   (map_of (detectionInstructions ctx) k = Some d \<longrightarrow>
      runDetection ctx k node st = d node st) \<and>
   (k \<notin> set objectPrototypeNames \<longrightarrow>
      (map_of (detectionInstructions ctx) k = None \<longrightarrow>
         runDetection ctx k node st = (st, None)) \<and>
      (k \<noteq> ''ImportDeclaration'' \<and> k \<noteq> requireSelector \<longrightarrow>
         runDetection ctx k node st = (st, None)) \<and>
      fst (snd (enhancedListener ctx rules k node (st, rs))) =
        fst (runDetection ctx k node st) \<and>
      (snd (runDetection ctx k node st) = None \<and>
       canReportErrors ctx (fst (runDetection ctx k node st)) = Inr True \<and>
       map_of rules k = Some r \<longrightarrow>
         enhancedListener ctx rules k node (st, rs) =
           (fst (r node (fst (runDetection ctx k node st)) rs),
            fst (runDetection ctx k node st),
            snd (r node (fst (runDetection ctx k node st)) rs))) \<and>
      (snd (runDetection ctx k node st) = None \<and>
       (canReportErrors ctx (fst (runDetection ctx k node st)) = Inr False \<or>
        canReportErrors ctx (fst (runDetection ctx k node st)) = Inr True \<and>
        map_of rules k = None) \<longrightarrow>
         enhancedListener ctx rules k node (st, rs) =
           (Inr JUndefined, fst (runDetection ctx k node st), rs)) \<and>
      (snd (runDetection ctx k node st) = Some e \<or>
       snd (runDetection ctx k node st) = None \<and>
       canReportErrors ctx (fst (runDetection ctx k node st)) = Inl e \<longrightarrow>
         enhancedListener ctx rules k node (st, rs) =
           (Inl e, fst (runDetection ctx k node st), rs)))"
proof (intro conjI impI)
  show "set (map fst (detectTestingLibraryUtils ctx rules)) =
     set (map fst (detectionInstructions ctx)) \<union> set (map fst rules)"
    by (simp add: detectTestingLibraryUtils_def comp_def allKeys_set)
  show "map_of (detectTestingLibraryUtils ctx rules) k = Some (enhancedListener ctx rules k)"
    if "k \<in> set (map fst (detectionInstructions ctx)) \<union> set (map fst rules)"
    using that allKeys_set[of ctx rules]
    by (simp only: detectTestingLibraryUtils_def map_of_tabulate) simp
  show "map_of (detectionInstructions ctx) ''ImportDeclaration'' = Some (ImportDeclaration ctx)"
    by (simp add: detectionInstructions_def)
  show "map_of (detectionInstructions ctx) requireSelector =
     Some (CallExpression_Identifier_require ctx)"
    by (simp add: detectionInstructions_def requireSelector_def)
  show "runDetection ctx ''ImportDeclaration'' node st = ImportDeclaration ctx node st"
    by (simp add: runDetection_def detectionInstructions_def)
  show "runDetection ctx requireSelector node st =
      CallExpression_Identifier_require ctx node st"
    by (simp add: runDetection_def detectionInstructions_def requireSelector_def)
  show "runDetection ctx k node st = d node st"
    if "map_of (detectionInstructions ctx) k = Some d"
    using that by (simp add: runDetection_def)
  show "runDetection ctx k node st = (st, None)"
    if "map_of (detectionInstructions ctx) k = None"
    using that by (simp add: runDetection_def)
  show "runDetection ctx k node st = (st, None)"
    if "k \<noteq> ''ImportDeclaration'' \<and> k \<noteq> requireSelector"
    using that by (simp add: runDetection_def detectionInstructions_def)
  show "fst (snd (enhancedListener ctx rules k node (st, rs))) = fst (runDetection ctx k node st)"
    by (simp add: enhancedListener_cases Let_def split: option.splits sum.splits)
  show "enhancedListener ctx rules k node (st, rs) =
        (fst (r node (fst (runDetection ctx k node st)) rs),
         fst (runDetection ctx k node st),
         snd (r node (fst (runDetection ctx k node st)) rs))"
    if "snd (runDetection ctx k node st) = None \<and>
      canReportErrors ctx (fst (runDetection ctx k node st)) = Inr True \<and>
      map_of rules k = Some r"
    using that by (simp add: enhancedListener_cases Let_def)
  show "enhancedListener ctx rules k node (st, rs) =
        (Inr JUndefined, fst (runDetection ctx k node st), rs)"
    if "snd (runDetection ctx k node st) = None \<and>
      (canReportErrors ctx (fst (runDetection ctx k node st)) = Inr False \<or>
       canReportErrors ctx (fst (runDetection ctx k node st)) = Inr True \<and> map_of rules k = None)"
    using that by (auto simp: enhancedListener_cases Let_def)
  show "enhancedListener ctx rules k node (st, rs) =
        (Inl e, fst (runDetection ctx k node st), rs)"
    if "snd (runDetection ctx k node st) = Some e \<or>
      snd (runDetection ctx k node st) = None \<and>
      canReportErrors ctx (fst (runDetection ctx k node st)) = Inl e"
    using that by (auto simp: enhancedListener_cases Let_def)
qed

lemma reporting_closed_before:
  "canReportErrors customContext initialDetection = Inr False"
  by (simp add: canReportErrors_def getIsTestingLibraryImported_def customContext_def
      customModule_def settingValue_def initialDetection_def)

lemma utilsImport_visit:
  "runDetection customContext ''ImportDeclaration'' utilsImport initialDetection =
     (\<lparr>importedTestingLibraryNode = JNull, importedCustomModuleNode = utilsImport\<rparr>, None)"
  by (simp add: runDetection_def utilsImport_def customContext_def sample_node_defs detection_eval)

lemma otherImport_visit:
  "runDetection customContext ''ImportDeclaration'' otherImport initialDetection =
     (initialDetection, None)"
  by (simp add: runDetection_def otherImport_def customContext_def sample_node_defs detection_eval)

lemma reporting_open_after:
  "canReportErrors customContext
     \<lparr>importedTestingLibraryNode = JNull, importedCustomModuleNode = utilsImport\<rparr> = Inr True"
  by (simp add: canReportErrors_def getIsTestingLibraryImported_def customContext_def
      customModule_def settingValue_def utilsImport_def importDeclarationNode_def
      getIsValidFilename_def filenamePattern_def regexTest_def default_pattern_compiles
      regexSearch_def lineTerminator_def)

theorem merged_listener_witness:
  "canReportErrors customContext initialDetection = Inr False \<and>
   map_of (detectTestingLibraryUtils customContext reportImports) ''ImportDeclaration''
     = Some (enhancedListener customContext reportImports ''ImportDeclaration'') \<and>
   map_of (detectTestingLibraryUtils customContext reportImports) requireSelector
     = Some (enhancedListener customContext reportImports requireSelector) \<and>
   map_of (detectTestingLibraryUtils customContext reportImports) ''VariableDeclarator''
     = Some (enhancedListener customContext reportImports ''VariableDeclarator'') \<and>
   ''ImportDeclaration'' \<notin> set objectPrototypeNames \<and>
   ''VariableDeclarator'' \<notin> set objectPrototypeNames \<and>
   map_of (detectionInstructions customContext) ''ImportDeclaration'' =
     Some (ImportDeclaration customContext) \<and>
   map_of (detectionInstructions customContext) ''VariableDeclarator'' = None \<and>
   runDetection customContext ''ImportDeclaration'' utilsImport initialDetection =
     ImportDeclaration customContext utilsImport initialDetection \<and>
   runDetection customContext ''VariableDeclarator'' utilsImport initialDetection =
     (initialDetection, None) \<and>
   enhancedListener customContext reportImports ''ImportDeclaration'' utilsImport
     (initialDetection, []) =
     (Inr (JStr ''reported''),
      \<lparr>importedTestingLibraryNode = JNull, importedCustomModuleNode = utilsImport\<rparr>,
      [utilsImport]) \<and>
   enhancedListener customContext reportImports ''ImportDeclaration'' otherImport
     (initialDetection, []) = (Inr JUndefined, initialDetection, []) \<and>
   enhancedListener customContext reportImports ''VariableDeclarator'' utilsImport
     (initialDetection, []) = (Inr JUndefined, initialDetection, []) \<and>
   enhancedListener brokenPatternContext reportImports ''ImportDeclaration'' reactImport
     (initialDetection, []) =
     (Inl PatternOutsideFragment,
      \<lparr>importedTestingLibraryNode = reactImport, importedCustomModuleNode = JNull\<rparr>, [])"
proof -
  have keys: "''ImportDeclaration'' \<in>
      set (map fst (detectionInstructions customContext)) \<union> set (map fst reportImports)"
    "requireSelector \<in>
      set (map fst (detectionInstructions customContext)) \<union> set (map fst reportImports)"
    "''VariableDeclarator'' \<in>
      set (map fst (detectionInstructions customContext)) \<union> set (map fst reportImports)"
    by (simp_all add: detectionInstructions_def reportImports_def)
  have rule: "map_of reportImports ''ImportDeclaration'' = Some reportingRule"
    by (simp add: reportImports_def)
  have tables: "map_of (detectTestingLibraryUtils customContext reportImports) ''ImportDeclaration''
     = Some (enhancedListener customContext reportImports ''ImportDeclaration'')"
    "map_of (detectTestingLibraryUtils customContext reportImports) requireSelector
     = Some (enhancedListener customContext reportImports requireSelector)"
    "map_of (detectTestingLibraryUtils customContext reportImports) ''VariableDeclarator''
     = Some (enhancedListener customContext reportImports ''VariableDeclarator'')"
    by (rule mp[OF merged_listener[THEN conjunct2, THEN conjunct1] keys(1)],
        rule mp[OF merged_listener[THEN conjunct2, THEN conjunct1] keys(2)],
        rule mp[OF merged_listener[THEN conjunct2, THEN conjunct1] keys(3)])
  have own: "''ImportDeclaration'' \<notin> set objectPrototypeNames"
    "''VariableDeclarator'' \<notin> set objectPrototypeNames"
    by (simp_all add: objectPrototypeNames_def)
  have held: "map_of (detectionInstructions customContext) ''ImportDeclaration'' =
      Some (ImportDeclaration customContext)"
    by (rule merged_listener[THEN conjunct2, THEN conjunct2, THEN conjunct1])
  have none: "map_of (detectionInstructions customContext) ''VariableDeclarator'' = None"
    by (simp add: detectionInstructions_def requireSelector_def)
  have called: "runDetection customContext ''ImportDeclaration'' utilsImport initialDetection =
      ImportDeclaration customContext utilsImport initialDetection"
    by (rule mp[OF merged_listener[THEN conjunct2, THEN conjunct2, THEN conjunct2,
            THEN conjunct2, THEN conjunct2, THEN conjunct2, THEN conjunct1] held])
  note behaviour = merged_listener[THEN conjunct2, THEN conjunct2, THEN conjunct2,
      THEN conjunct2, THEN conjunct2, THEN conjunct2, THEN conjunct2, THEN mp]
  have skipped: "runDetection customContext ''VariableDeclarator'' utilsImport initialDetection =
      (initialDetection, None)"
    by (rule mp[OF behaviour[OF own(2), THEN conjunct1] none])
  have "enhancedListener customContext reportImports ''ImportDeclaration'' utilsImport
     (initialDetection, []) =
     (fst (reportingRule utilsImport
        (fst (runDetection customContext ''ImportDeclaration'' utilsImport initialDetection)) []),
      fst (runDetection customContext ''ImportDeclaration'' utilsImport initialDetection),
      snd (reportingRule utilsImport
        (fst (runDetection customContext ''ImportDeclaration'' utilsImport initialDetection)) []))"
    by (rule mp[OF behaviour[OF own(1), THEN conjunct2, THEN conjunct2, THEN conjunct2,
            THEN conjunct1]])
      (simp add: utilsImport_visit reporting_open_after rule)
  then have opened: "enhancedListener customContext reportImports ''ImportDeclaration''
     utilsImport (initialDetection, []) =
     (Inr (JStr ''reported''),
      \<lparr>importedTestingLibraryNode = JNull, importedCustomModuleNode = utilsImport\<rparr>,
      [utilsImport])"
    by (simp add: utilsImport_visit reportingRule_def)
  have "enhancedListener customContext reportImports ''ImportDeclaration'' otherImport
     (initialDetection, []) =
     (Inr JUndefined,
      fst (runDetection customContext ''ImportDeclaration'' otherImport initialDetection), [])"
    by (rule mp[OF behaviour[OF own(1), THEN conjunct2, THEN conjunct2, THEN conjunct2,
            THEN conjunct2, THEN conjunct1]])
      (simp add: otherImport_visit reporting_closed_before)
  then have closed: "enhancedListener customContext reportImports ''ImportDeclaration''
     otherImport (initialDetection, []) = (Inr JUndefined, initialDetection, [])"
    by (simp add: otherImport_visit)
  have "enhancedListener customContext reportImports ''VariableDeclarator'' utilsImport
     (initialDetection, []) =
     (Inr JUndefined,
      fst (runDetection customContext ''VariableDeclarator'' utilsImport initialDetection), [])"
    by (rule mp[OF behaviour[OF own(2), THEN conjunct2, THEN conjunct2, THEN conjunct2,
            THEN conjunct2, THEN conjunct1]])
      (simp add: skipped reporting_closed_before)
  then have unseen: "enhancedListener customContext reportImports ''VariableDeclarator''
     utilsImport (initialDetection, []) = (Inr JUndefined, initialDetection, [])"
    by (simp add: skipped)
  have visit: "runDetection brokenPatternContext ''ImportDeclaration'' reactImport
      initialDetection =
      (\<lparr>importedTestingLibraryNode = reactImport, importedCustomModuleNode = JNull\<rparr>, None)"
    by (simp add: runDetection_def reactImport_def brokenPatternContext_def sample_node_defs
        detection_eval)
  have refused: "canReportErrors brokenPatternContext
      \<lparr>importedTestingLibraryNode = reactImport, importedCustomModuleNode = JNull\<rparr>
      = Inl PatternOutsideFragment"
    by (simp add: canReportErrors_def getIsTestingLibraryImported_def brokenPatternContext_def
        customModule_def settingValue_def getIsValidFilename_def filenamePattern_def
        regexTest_def compilePattern_def)
  have "enhancedListener brokenPatternContext reportImports ''ImportDeclaration'' reactImport
     (initialDetection, []) =
     (Inl PatternOutsideFragment,
      fst (runDetection brokenPatternContext ''ImportDeclaration'' reactImport
             initialDetection), [])"
    by (rule mp[OF behaviour[OF own(1), THEN conjunct2, THEN conjunct2, THEN conjunct2,
            THEN conjunct2, THEN conjunct2]])
      (simp add: visit refused)
  then have raised: "enhancedListener brokenPatternContext reportImports ''ImportDeclaration''
     reactImport (initialDetection, []) =
     (Inl PatternOutsideFragment,
      \<lparr>importedTestingLibraryNode = reactImport, importedCustomModuleNode = JNull\<rparr>, [])"
    by (simp add: visit)
  show ?thesis
    by (intro conjI reporting_closed_before tables own held none called skipped opened closed
        unseen raised)
qed

text \<open>
  The detection variables after a traversal of the merged table are those that the
  detection callbacks alone leave after the visits made up to the point where the
  traversal ended. So what holds of the detection variables after every run of the
  detection callbacks holds after every traversal of a rule's merged table: a recorded
  node is kept.
\<close>

lemma merged_lookup:
  "map_of (detectTestingLibraryUtils ctx rules) k =
     (if k \<in> set (map fst (detectionInstructions ctx)) \<union> set (map fst rules)
      then Some (enhancedListener ctx rules k) else None)"
  using allKeys_set[of ctx rules]
  by (simp add: detectTestingLibraryUtils_def map_of_tabulate)

lemma runDetection_unlisted:
  "k \<notin> set (map fst (detectionInstructions ctx)) \<Longrightarrow> runDetection ctx k node st = (st, None)"
  by (simp add: runDetection_def map_of_eq_None_iff[THEN iffD2])

lemma detectAll_step:
  "detectAll ctx ((k, node) # visits) st =
     (case runDetection ctx k node st of
        (st1, Some e) \<Rightarrow> (st1, Some e)
      | (st1, None) \<Rightarrow> detectAll ctx visits st1)"
  by (simp add: runDetection_def split: option.splits)

lemma traverse_detection:
  "\<exists>seen. prefix seen visits \<and>
     fst (snd (traverse (detectTestingLibraryUtils ctx rules) visits (st, rs)))
       = fst (detectAll ctx seen st)"
proof (induction visits arbitrary: st rs)
  case Nil
  have "prefix [] ([] :: (string \<times> jsv) list) \<and>
      fst (snd (traverse (detectTestingLibraryUtils ctx rules) [] (st, rs)))
        = fst (detectAll ctx [] st)"
    by simp
  then show ?case by blast
next
  case (Cons visit visits)
  obtain k node where visit: "visit = (k, node)" by (cases visit)
  let ?table = "detectTestingLibraryUtils ctx rules"
  obtain st1 err where d: "runDetection ctx k node st = (st1, err)"
    by (cases "runDetection ctx k node st")
  have stop: "\<exists>seen. prefix seen (visit # visits) \<and> st1 = fst (detectAll ctx seen st)"
  proof (cases err)
    case None
    then have "prefix [visit] (visit # visits) \<and> st1 = fst (detectAll ctx [visit] st)"
      using d visit by (simp add: detectAll_step del: detectAll.simps(2))
    then show ?thesis by blast
  next
    case (Some e)
    then have "prefix [visit] (visit # visits) \<and> st1 = fst (detectAll ctx [visit] st)"
      using d visit by (simp add: detectAll_step del: detectAll.simps(2))
    then show ?thesis by blast
  qed
  have continue: "\<exists>seen. prefix seen (visit # visits) \<and>
      fst (snd (traverse ?table visits (st1, rs'))) = fst (detectAll ctx seen st)"
    if "err = None" for rs'
  proof -
    from Cons.IH[of st1 rs'] obtain seen where seen: "prefix seen visits"
      "fst (snd (traverse ?table visits (st1, rs'))) = fst (detectAll ctx seen st1)"
      by blast
    have "prefix (visit # seen) (visit # visits) \<and>
        fst (snd (traverse ?table visits (st1, rs'))) = fst (detectAll ctx (visit # seen) st)"
      using seen d that visit by (simp add: detectAll_step del: detectAll.simps(2))
    then show ?thesis by blast
  qed
  show ?case
  proof (cases "k \<in> set (map fst (detectionInstructions ctx)) \<union> set (map fst rules)")
    case False
    then have "runDetection ctx k node st = (st, None)"
      by (simp add: runDetection_unlisted)
    with d have "st1 = st" "err = None" by simp_all
    moreover have "traverse ?table (visit # visits) (st, rs) = traverse ?table visits (st, rs)"
      using False visit by (simp add: merged_lookup)
    ultimately show ?thesis using continue[of rs] by simp
  next
    case True
    then have look: "map_of ?table k = Some (enhancedListener ctx rules k)"
      by (simp add: merged_lookup)
    obtain res rs' where f: "enhancedListener ctx rules k node (st, rs) = (res, st1, rs')"
      using d by (cases "enhancedListener ctx rules k node (st, rs)")
        (auto simp: enhancedListener_cases Let_def split: option.splits sum.splits)
    show ?thesis
    proof (cases res)
      case (Inl e)
      then have "traverse ?table (visit # visits) (st, rs) = (Some e, st1, rs')"
        using visit look f by simp
      then show ?thesis using stop by simp
    next
      case (Inr v)
      then have t: "traverse ?table (visit # visits) (st, rs) = traverse ?table visits (st1, rs')"
        using visit look f by simp
      have "err = None"
        using f Inr d by (auto simp: enhancedListener_cases Let_def split: option.splits)
      then show ?thesis using continue[of rs'] t by simp
    qed
  qed
qed

lemma traverse_keeps:
  "truthy (importedTestingLibraryNode st) \<Longrightarrow>
     importedTestingLibraryNode
       (fst (snd (traverse (detectTestingLibraryUtils ctx rules) visits (st, rs))))
     = importedTestingLibraryNode st"
  "truthy (importedCustomModuleNode st) \<Longrightarrow>
     importedCustomModuleNode
       (fst (snd (traverse (detectTestingLibraryUtils ctx rules) visits (st, rs))))
     = importedCustomModuleNode st"
  using traverse_detection[of visits ctx rules st rs]
  by (auto simp: detectAll_keeps_library detectAll_keeps_custom)

end
